theory Spec2Isabelle
  imports Complex_Main "HOL-Library.AList"
begin

section \<open>Conventions of the embedding\<close>

text \<open>
  The program is Python.  A Python \<open>float\<close> that is finite by construction (a tick price,
  a balance, a configured constant) is a \<^typ>\<open>real\<close>: arithmetic is exact, rounding and
  overflow of IEEE doubles are not modelled.  Where the source can produce a value that
  is not finite (a pandas rolling mean over too short a window, a numpy division by
  zero, a logarithm of a non-positive number) the value is an \<open>npfloat\<close>, which adds the
  three special values; a value whose run-time type decides what an operation does
  (Python number or numpy scalar) is a \<open>number\<close>.

  A Python exception is a value of \<open>py_error\<close>.  A pure function of the source that can
  raise returns a sum, with \<open>Inl\<close> for the exception; a function that changes the state
  and can raise returns the exception, if any, together with the state as it was when
  the exception was raised (what was changed before stays changed).  A function whose
  body is one try block with a catch-all except returns just the state.

  The exchange is outside the program: what it answers during one tick is a parameter
  (\<open>exchange\<close>), and the state carries a journal of the calls made to it and of the
  exceptions that the except clauses logged.  The journal is not a variable of the
  source; it records what the source does to the outside.
\<close>

datatype py_error =
    ZeroDivisionError
  | AttributeError
  | TypeError
  | ValueError
  | OverflowError
  | IndexError
  | KeyError
  | ExchangeError

type_synonym symbol = string

section \<open>Numbers\<close>

text \<open>
  A numpy \<open>float64\<close>: a finite value or one of the three special values.  Signed zeros are
  not told apart (a zero is a positive zero).
\<close>

datatype npfloat = Fin real | PInf | NInf | NaN

fun np_neg :: "npfloat \<Rightarrow> npfloat" where
  "np_neg (Fin a) = Fin (- a)"
| "np_neg PInf = NInf"
| "np_neg NInf = PInf"
| "np_neg NaN = NaN"

fun np_abs :: "npfloat \<Rightarrow> npfloat" where
  "np_abs (Fin a) = Fin \<bar>a\<bar>"
| "np_abs PInf = PInf"
| "np_abs NInf = PInf"
| "np_abs NaN = NaN"

fun np_add :: "npfloat \<Rightarrow> npfloat \<Rightarrow> npfloat" where
  "np_add NaN y = NaN"
| "np_add (Fin a) (Fin b) = Fin (a + b)"
| "np_add (Fin a) y = y"
| "np_add PInf NInf = NaN"
| "np_add PInf NaN = NaN"
| "np_add PInf y = PInf"
| "np_add NInf PInf = NaN"
| "np_add NInf NaN = NaN"
| "np_add NInf y = NInf"

definition np_sub :: "npfloat \<Rightarrow> npfloat \<Rightarrow> npfloat" where
  "np_sub x y = np_add x (np_neg y)"

fun np_mul :: "npfloat \<Rightarrow> npfloat \<Rightarrow> npfloat" where
  "np_mul NaN y = NaN"
| "np_mul x NaN = NaN"
| "np_mul (Fin a) (Fin b) = Fin (a * b)"
| "np_mul (Fin a) PInf = (if a = 0 then NaN else if 0 < a then PInf else NInf)"
| "np_mul (Fin a) NInf = (if a = 0 then NaN else if 0 < a then NInf else PInf)"
| "np_mul PInf (Fin b) = (if b = 0 then NaN else if 0 < b then PInf else NInf)"
| "np_mul NInf (Fin b) = (if b = 0 then NaN else if 0 < b then NInf else PInf)"
| "np_mul PInf PInf = PInf"
| "np_mul PInf NInf = NInf"
| "np_mul NInf PInf = NInf"
| "np_mul NInf NInf = PInf"

text \<open>numpy's true division: a zero divisor gives an infinity or NaN (and a warning), never an exception.\<close>

fun np_div :: "npfloat \<Rightarrow> npfloat \<Rightarrow> npfloat" where
  "np_div NaN y = NaN"
| "np_div x NaN = NaN"
| "np_div (Fin a) (Fin b) =
     (if b = 0 then (if a = 0 then NaN else if 0 < a then PInf else NInf) else Fin (a / b))"
| "np_div (Fin a) PInf = Fin 0"
| "np_div (Fin a) NInf = Fin 0"
| "np_div PInf (Fin b) = (if 0 \<le> b then PInf else NInf)"
| "np_div NInf (Fin b) = (if 0 \<le> b then NInf else PInf)"
| "np_div PInf y = NaN"
| "np_div NInf y = NaN"

text \<open>IEEE comparison: every comparison with NaN is false.\<close>

fun np_lt :: "npfloat \<Rightarrow> npfloat \<Rightarrow> bool" where
  "np_lt NaN y = False"
| "np_lt x NaN = False"
| "np_lt (Fin a) (Fin b) = (a < b)"
| "np_lt (Fin a) PInf = True"
| "np_lt (Fin a) NInf = False"
| "np_lt PInf y = False"
| "np_lt NInf NInf = False"
| "np_lt NInf y = True"

fun np_le :: "npfloat \<Rightarrow> npfloat \<Rightarrow> bool" where
  "np_le NaN y = False"
| "np_le x NaN = False"
| "np_le (Fin a) (Fin b) = (a \<le> b)"
| "np_le (Fin a) PInf = True"
| "np_le (Fin a) NInf = False"
| "np_le PInf PInf = True"
| "np_le PInf y = False"
| "np_le NInf y = True"

text \<open>
  A number at run time is a Python number (an \<open>int\<close> or a finite \<open>float\<close>) or a numpy scalar.
  An operation with a numpy operand is numpy's and gives a numpy scalar; an operation on
  two Python numbers is Python's, where division by zero raises.
\<close>

datatype number = PyNum real | NpNum npfloat

fun lift :: "number \<Rightarrow> npfloat" where
  "lift (PyNum r) = Fin r"
| "lift (NpNum x) = x"

fun num_add :: "number \<Rightarrow> number \<Rightarrow> number" where
  "num_add (PyNum a) (PyNum b) = PyNum (a + b)"
| "num_add x y = NpNum (np_add (lift x) (lift y))"

fun num_sub :: "number \<Rightarrow> number \<Rightarrow> number" where
  "num_sub (PyNum a) (PyNum b) = PyNum (a - b)"
| "num_sub x y = NpNum (np_sub (lift x) (lift y))"

fun num_mul :: "number \<Rightarrow> number \<Rightarrow> number" where
  "num_mul (PyNum a) (PyNum b) = PyNum (a * b)"
| "num_mul x y = NpNum (np_mul (lift x) (lift y))"

fun num_abs :: "number \<Rightarrow> number" where
  "num_abs (PyNum a) = PyNum \<bar>a\<bar>"
| "num_abs (NpNum x) = NpNum (np_abs x)"

fun num_div :: "number \<Rightarrow> number \<Rightarrow> py_error + number" where
  "num_div (PyNum a) (PyNum b) = (if b = 0 then Inl ZeroDivisionError else Inr (PyNum (a / b)))"
| "num_div x y = Inr (NpNum (np_div (lift x) (lift y)))"

definition num_lt :: "number \<Rightarrow> number \<Rightarrow> bool" where
  "num_lt x y = np_lt (lift x) (lift y)"

text \<open>
  The builtins \<open>min(a, b)\<close> and \<open>max(a, b)\<close> return their first argument unless the second
  is smaller (greater): with a NaN first argument they return the NaN.
\<close>

definition py_min :: "number \<Rightarrow> number \<Rightarrow> number" where
  "py_min a b = (if num_lt b a then b else a)"

definition py_max :: "number \<Rightarrow> number \<Rightarrow> number" where
  "py_max a b = (if num_lt a b then b else a)"

text \<open>
  The builtin \<open>round(x)\<close> with one argument: the nearest integer, a tie going to the even
  one; \<open>ValueError\<close> on NaN and \<open>OverflowError\<close> on an infinity.
\<close>

definition round_half_even :: "real \<Rightarrow> int" where
  "round_half_even x =
     (let f = \<lfloor>x\<rfloor>; d = x - of_int f
      in if d < 1 / 2 then f else if 1 / 2 < d then f + 1 else if even f then f else f + 1)"

definition py_round :: "number \<Rightarrow> py_error + int" where
  "py_round x =
     (case lift x of
        Fin r \<Rightarrow> Inr (round_half_even r)
      | NaN \<Rightarrow> Inl ValueError
      | PInf \<Rightarrow> Inl OverflowError
      | NInf \<Rightarrow> Inl OverflowError)"

section \<open>TradingConfig\<close>

definition MAX_POSITIONS :: nat where "MAX_POSITIONS = 3"
definition MIN_VOLUME_USD :: real where "MIN_VOLUME_USD = 1000000"
definition MAX_SPREAD_PERCENT :: real where "MAX_SPREAD_PERCENT = 0.1"
definition LEVERAGE :: real where "LEVERAGE = 3"
definition MIN_STOP_LOSS :: real where "MIN_STOP_LOSS = 0.5"
definition MAX_STOP_LOSS :: real where "MAX_STOP_LOSS = 5.0"
definition ATR_MULTIPLIER :: real where "ATR_MULTIPLIER = 2.0"
definition RISK_PER_TRADE :: real where "RISK_PER_TRADE = 0.01"
definition STOP_LOSS_PERCENT :: real where "STOP_LOSS_PERCENT = 2"
definition TAKE_PROFIT_PERCENT :: real where "TAKE_PROFIT_PERCENT = 2"

record level =
  profit :: real
  close_percent :: real

definition PARTIAL_CLOSE_LEVELS :: "level list" where
  "PARTIAL_CLOSE_LEVELS =
     [\<lparr>profit = 1.0, close_percent = 0.3\<rparr>,
      \<lparr>profit = 1.5, close_percent = 0.3\<rparr>,
      \<lparr>profit = 2.0, close_percent = 0.4\<rparr>]"

text \<open>\<open>TradingConfig.calculate_position_size\<close>; each of the two divisions can raise.\<close>

definition calculate_position_size :: "number \<Rightarrow> number \<Rightarrow> number \<Rightarrow> py_error + number" where
  "calculate_position_size balance entry_price stop_loss_price =
     (case num_div (num_abs (num_sub entry_price stop_loss_price)) entry_price of
        Inl e \<Rightarrow> Inl e
      | Inr q \<Rightarrow>
          let price_diff_percent = num_mul q (PyNum 100);
              risk_amount = num_mul balance (PyNum RISK_PER_TRADE)
          in (case num_div risk_amount price_diff_percent of
                Inl e \<Rightarrow> Inl e
              | Inr r \<Rightarrow> Inr (num_mul r (PyNum LEVERAGE))))"

text \<open>\<open>RiskManager.validate_position_size\<close>.\<close>

definition validate_position_size :: "number \<Rightarrow> number \<Rightarrow> number" where
  "validate_position_size position_size balance =
     (let max_size = num_mul balance (PyNum 0.1) in py_min position_size max_size)"

section \<open>Price feed reconnection (Real_Trading_Websocket.py)\<close>

text \<open>
  The module keeps a global counter \<open>reconnect_attempts\<close> and the bound
  \<open>MAX_RECONNECT_ATTEMPTS\<close>.  The two functions call each other; what the external
  websocket manager does is given as a list of outcomes, one per external call in the
  order the calls are made (\<open>True\<close>: the call returns, \<open>False\<close>: it raises).  The call in
  \<open>start_symbol_ticker_socket\<close> is \<open>twm.start_aggtrade_socket\<close>; the calls in
  \<open>reconnect_websocket\<close> (\<open>twm.stop()\<close> and \<open>initialize_websocket_manager()\<close>) are taken
  together as one outcome.  \<open>None\<close> means that the listed outcomes were used up before the
  functions returned.  The interpreter's recursion limit is not modelled.
\<close>

definition MAX_RECONNECT_ATTEMPTS :: nat where "MAX_RECONNECT_ATTEMPTS = 5"

datatype feed_note =
    ConnectErrorSent        \<comment> \<open>message of the except clause of \<open>start_symbol_ticker_socket\<close>\<close>
  | MaxAttemptsExceededSent \<comment> \<open>message sent when the bound is exceeded\<close>
  | ReconnectErrorSent      \<comment> \<open>message of the except clause of \<open>reconnect_websocket\<close>\<close>

record feed =
  reconnect_attempts :: nat
  subscribed :: bool
  connect_calls :: nat
  sent :: "feed_note list"

fun start_symbol_ticker_socket :: "bool list \<Rightarrow> feed \<Rightarrow> feed option"
  and reconnect_websocket :: "bool list \<Rightarrow> feed \<Rightarrow> feed option" where
  "start_symbol_ticker_socket [] f = None"
| "start_symbol_ticker_socket (ok # outs) f =
     (let f1 = f\<lparr>reconnect_attempts := 0, connect_calls := connect_calls f + 1\<rparr>
      in if ok then Some (f1\<lparr>subscribed := True\<rparr>)
         else reconnect_websocket outs (f1\<lparr>sent := sent f1 @ [ConnectErrorSent]\<rparr>))"
| "reconnect_websocket outs f =
     (let f1 = f\<lparr>reconnect_attempts := reconnect_attempts f + 1\<rparr>
      in if reconnect_attempts f1 > MAX_RECONNECT_ATTEMPTS
         then Some (f1\<lparr>sent := sent f1 @ [MaxAttemptsExceededSent]\<rparr>)
         else (case outs of
                 [] \<Rightarrow> None
               | ok # outs' \<Rightarrow>
                   if ok then start_symbol_ticker_socket outs' (f1\<lparr>subscribed := False\<rparr>)
                   else Some (f1\<lparr>subscribed := False, sent := sent f1 @ [ReconnectErrorSent]\<rparr>)))"

definition feed0 :: feed where
  "feed0 = \<lparr>reconnect_attempts = 0, subscribed = False, connect_calls = 0, sent = []\<rparr>"

text \<open>Six failing connection attempts, each followed by a restart that works, then a seventh attempt that connects.\<close>

definition six_failures :: "bool list" where
  "six_failures = [False, True, False, True, False, True, False, True, False, True, False, True, True]"

section \<open>State of the bot (Real_trading.py)\<close>

text \<open>
  The dictionaries of the source with their keys as record fields.  \<open>open_positions\<close> is an
  association list in insertion order, since the source takes its \<open>len\<close>; the other
  dictionaries are maps.  The state is the one after \<open>main\<close> has created the
  \<open>RiskManager\<close> and the \<open>PriceAnalyzer\<close> (so \<open>if risk_manager:\<close> holds).
\<close>

record position =
  side :: string
  quantity :: number
  entry_price :: real
  stop_loss :: real
  take_profit :: real

record trailing =
  highest_price :: real
  stop_price :: real
  distance_percent :: real

datatype alert_message = HighVolatility npfloat | Text string

record alert =
  alert_price :: real
  direction :: string
  message :: alert_message
  triggered :: bool

record sample =
  price :: real
  timestamp :: nat

text \<open>One row of the frame that \<open>get_futures_klines\<close> returns (the columns the code reads).\<close>

record bar =
  high :: real
  low :: real
  close :: real

record order =
  order_symbol :: symbol
  order_side :: string
  order_type :: string
  stopPrice :: "real option"
  order_quantity :: number

record open_order =
  open_type :: string
  orderId :: nat

text \<open>The calls to the exchange, and what the journal keeps of a run.\<close>

datatype call =
    Futures_account
  | Futures_change_leverage symbol
  | Futures_ticker symbol
  | Futures_order_book symbol
  | Futures_get_open_orders symbol
  | Futures_cancel_order symbol nat
  | Futures_create_order order

datatype site =
    In_check_entry_conditions
  | In_update_stop_loss_order
  | In_check_margin_usage
  | In_set_leverage
  | In_open_position
  | In_handle_socket_message

datatype event =
    Called call bool             \<comment> \<open>a call to the exchange; \<open>True\<close>: it returned, \<open>False\<close>: it raised\<close>
  | ErrorLogged site py_error    \<comment> \<open>an except clause logged the exception and went on\<close>
  | AlertSounded symbol alert_message
  | WarningLogged string

record bot =
  previous_prices :: "symbol \<rightharpoonup> real"
  price_history :: "symbol \<rightharpoonup> sample list"
  volatility :: "symbol \<rightharpoonup> npfloat"
  open_positions :: "(symbol \<times> position) list"
  price_alerts :: "symbol \<rightharpoonup> alert list"
  trailing_stops :: "symbol \<rightharpoonup> trailing"
  TARGET_PRICES :: "symbol \<rightharpoonup> npfloat option"
  journal :: "event list"

definition emit :: "event list \<Rightarrow> bot \<Rightarrow> bot" where
  "emit evs st = st\<lparr>journal := journal st @ evs\<rparr>"

text \<open>
  What the exchange answers during one tick, were the call made: a value, or the exception
  the client raises.  The responses are taken as parsed (\<open>float(...)\<close> of a field does not
  fail).  \<open>futures_account\<close> is called at two places, each with its own answer;
  \<open>get_futures_klines\<close> and \<open>get_tick_size\<close> catch their own exceptions and return an empty
  frame (no rows, no columns) and \<open>None\<close>.
\<close>

record exchange =
  account_for_margin :: "py_error + (real \<times> real)"
  account_for_balance :: "py_error + real"
  futures_change_leverage :: "symbol \<Rightarrow> bool"
  futures_ticker :: "symbol \<Rightarrow> py_error + (real \<times> real)"
  futures_order_book :: "symbol \<Rightarrow> py_error + (real list \<times> real list)"
  futures_get_open_orders :: "symbol \<Rightarrow> py_error + open_order list"
  futures_cancel_order :: "symbol \<Rightarrow> nat \<Rightarrow> bool"
  futures_create_order :: "order \<Rightarrow> bool"
  klines_for_entry :: "symbol \<Rightarrow> bar list"
  klines_for_target :: "symbol \<Rightarrow> bar list"
  get_tick_size :: "symbol \<Rightarrow> real option"

section \<open>pandas and numpy helpers\<close>

text \<open>\<open>series.rolling(w).mean().iloc[-1]\<close> on a series with at least one row: NaN until the window is full.\<close>

definition rolling_mean_last :: "nat \<Rightarrow> real list \<Rightarrow> npfloat" where
  "rolling_mean_last w xs =
     (if length xs < w then NaN else Fin (sum_list (drop (length xs - w) xs) / real w))"

text \<open>
  The true range of each row: \<open>np.max\<close> over the three columns skips the NaN that
  \<open>shift()\<close> leaves in the first row.
\<close>

fun true_range :: "real option \<Rightarrow> bar list \<Rightarrow> real list" where
  "true_range prev [] = []"
| "true_range None (b # bs) = (high b - low b) # true_range (Some (close b)) bs"
| "true_range (Some c) (b # bs) =
     max (high b - low b) (max \<bar>high b - c\<bar> \<bar>low b - c\<bar>) # true_range (Some (close b)) bs"

definition mean :: "real list \<Rightarrow> real" where
  "mean xs = sum_list xs / real (length xs)"

definition np_diff :: "real list \<Rightarrow> real list" where
  "np_diff xs = map (\<lambda>(a, b). b - a) (zip xs (tl xs))"

definition np_std :: "real list \<Rightarrow> real" where
  "np_std xs = sqrt (mean (map (\<lambda>x. \<bar>x - mean xs\<bar> ^ 2) xs))"

section \<open>RiskManager\<close>

text \<open>
  \<open>check_entry_conditions\<close>.  An exception of any of the steps (the exchange's, an empty
  side of the book, a zero best bid) is caught, logged, and the answer is \<open>False\<close>.
\<close>

definition spread_percent :: "real list \<Rightarrow> real list \<Rightarrow> py_error + real" where
  "spread_percent asks bids =
     (case asks of
        [] \<Rightarrow> Inl IndexError
      | a # _ \<Rightarrow>
          (case bids of
             [] \<Rightarrow> Inl IndexError
           | b # _ \<Rightarrow> if b = 0 then Inl ZeroDivisionError else Inr ((a - b) / b * 100)))"

definition check_entry_conditions :: "exchange \<Rightarrow> symbol \<Rightarrow> real \<Rightarrow> bot \<Rightarrow> bool \<times> bot" where
  "check_entry_conditions ex symbol current_price st =
     (if length (open_positions st) \<ge> MAX_POSITIONS then (False, st)
      else (case futures_ticker ex symbol of
          Inl e \<Rightarrow> (False, emit [Called (Futures_ticker symbol) False,
                                  ErrorLogged In_check_entry_conditions e] st)
        | Inr (volume24, lastPrice) \<Rightarrow>
            let st1 = emit [Called (Futures_ticker symbol) True] st
            in if volume24 * lastPrice < MIN_VOLUME_USD then (False, st1)
               else (case futures_order_book ex symbol of
                   Inl e \<Rightarrow> (False, emit [Called (Futures_order_book symbol) False,
                                           ErrorLogged In_check_entry_conditions e] st1)
                 | Inr (asks, bids) \<Rightarrow>
                     let st2 = emit [Called (Futures_order_book symbol) True] st1
                     in (case spread_percent asks bids of
                           Inl e \<Rightarrow> (False, emit [ErrorLogged In_check_entry_conditions e] st2)
                         | Inr spread \<Rightarrow>
                             if spread > MAX_SPREAD_PERCENT then (False, st2) else (True, st2)))))"

text \<open>
  \<open>calculate_dynamic_stops\<close> on the frame \<open>df\<close>.  On the empty frame \<open>df['high']\<close> raises
  \<open>KeyError\<close> and the except clause returns the two module constants.  Otherwise nothing
  raises: \<open>atr\<close> is a numpy scalar, \<open>current_price\<close> a Python float, and the clamp is
  \<open>max(min(x, MAX_STOP_LOSS), MIN_STOP_LOSS)\<close> with the builtins.
\<close>

definition atr14 :: "bar list \<Rightarrow> npfloat" where
  "atr14 df = rolling_mean_last 14 (true_range None df)"

definition calculate_dynamic_stops :: "bar list \<Rightarrow> number \<times> number" where
  "calculate_dynamic_stops df =
     (if df = [] then (PyNum STOP_LOSS_PERCENT, PyNum TAKE_PROFIT_PERCENT)
      else
        let atr = NpNum (atr14 df);
            current_price = PyNum (close (last df));
            stop_loss_distance = num_mul atr (PyNum ATR_MULTIPLIER)
        in (case num_div stop_loss_distance current_price of
              Inl e \<Rightarrow> (PyNum STOP_LOSS_PERCENT, PyNum TAKE_PROFIT_PERCENT)
            | Inr q \<Rightarrow>
                let stop_loss_percent = num_mul q (PyNum 100);
                    stop_loss_percent =
                      py_max (py_min stop_loss_percent (PyNum MAX_STOP_LOSS)) (PyNum MIN_STOP_LOSS);
                    take_profit_percent = num_mul stop_loss_percent (PyNum 1.5)
                in (stop_loss_percent, take_profit_percent)))"

text \<open>\<open>add_price_alert\<close>.\<close>

definition add_price_alert :: "symbol \<Rightarrow> real \<Rightarrow> string \<Rightarrow> alert_message \<Rightarrow> bot \<Rightarrow> bot" where
  "add_price_alert symbol p dir msg st =
     (let old = (case price_alerts st symbol of None \<Rightarrow> [] | Some as \<Rightarrow> as)
      in st\<lparr>price_alerts := (price_alerts st)(symbol \<mapsto>
                old @ [\<lparr>alert_price = p, direction = dir, message = msg, triggered = False\<rparr>])\<rparr>)"

text \<open>
  \<open>update_stop_loss_order\<close>: cancel every open \<open>STOP_MARKET\<close> order, place the new one, then
  write the new stop into the position.  The first exception ends the body; the except
  clause logs it.
\<close>

fun cancel_stop_orders :: "exchange \<Rightarrow> symbol \<Rightarrow> open_order list \<Rightarrow> bot \<Rightarrow> py_error option \<times> bot" where
  "cancel_stop_orders ex symbol [] st = (None, st)"
| "cancel_stop_orders ex symbol (ord # rest) st =
     (if open_type ord = ''STOP_MARKET'' then
        (if futures_cancel_order ex symbol (orderId ord)
         then cancel_stop_orders ex symbol rest (emit [Called (Futures_cancel_order symbol (orderId ord)) True] st)
         else (Some ExchangeError, emit [Called (Futures_cancel_order symbol (orderId ord)) False] st))
      else cancel_stop_orders ex symbol rest st)"

definition replace_stop_order :: "exchange \<Rightarrow> symbol \<Rightarrow> real \<Rightarrow> bot \<Rightarrow> py_error option \<times> bot" where
  "replace_stop_order ex symbol new_stop_price st =
     (case map_of (open_positions st) symbol of
        None \<Rightarrow> (Some KeyError, st)
      | Some pos \<Rightarrow>
          (case futures_get_open_orders ex symbol of
             Inl e \<Rightarrow> (Some e, emit [Called (Futures_get_open_orders symbol) False] st)
           | Inr open_orders \<Rightarrow>
               (case cancel_stop_orders ex symbol open_orders
                       (emit [Called (Futures_get_open_orders symbol) True] st) of
                  (Some e, st1) \<Rightarrow> (Some e, st1)
                | (None, st1) \<Rightarrow>
                    let stop_order = \<lparr>order_symbol = symbol,
                                      order_side = (if side pos = ''long'' then ''SELL'' else ''BUY''),
                                      order_type = ''STOP_MARKET'',
                                      stopPrice = Some new_stop_price,
                                      order_quantity = quantity pos\<rparr>
                    in if futures_create_order ex stop_order
                       then (None, (emit [Called (Futures_create_order stop_order) True] st1)
                               \<lparr>open_positions :=
                                  AList.update symbol (pos\<lparr>stop_loss := new_stop_price\<rparr>) (open_positions st1)\<rparr>)
                       else (Some ExchangeError, emit [Called (Futures_create_order stop_order) False] st1))))"

definition update_stop_loss_order :: "exchange \<Rightarrow> symbol \<Rightarrow> real \<Rightarrow> bot \<Rightarrow> bot" where
  "update_stop_loss_order ex symbol new_stop_price st =
     (case replace_stop_order ex symbol new_stop_price st of
        (None, st1) \<Rightarrow> st1
      | (Some e, st1) \<Rightarrow> emit [ErrorLogged In_update_stop_loss_order e] st1)"

text \<open>
  \<open>update_trailing_stop\<close>.  The first call for a symbol with a position creates the
  entry (the division raises on a zero price, before anything is stored); a later call
  moves the stop of a long position.  Nothing is done for any other side.
\<close>

definition update_trailing_stop :: "exchange \<Rightarrow> symbol \<Rightarrow> real \<Rightarrow> bot \<Rightarrow> py_error option \<times> bot" where
  "update_trailing_stop ex symbol current_price st =
     (case map_of (open_positions st) symbol of
        None \<Rightarrow> (None, st)
      | Some pos \<Rightarrow>
          (case trailing_stops st symbol of
             None \<Rightarrow>
               let initial_stop = stop_loss pos
               in if current_price = 0 then (Some ZeroDivisionError, st)
                  else (None, st\<lparr>trailing_stops := (trailing_stops st)(symbol \<mapsto>
                          \<lparr>highest_price = current_price,
                           stop_price = initial_stop,
                           distance_percent = \<bar>current_price - initial_stop\<bar> / current_price * 100\<rparr>)\<rparr>)
           | Some tr \<Rightarrow>
               if side pos = ''long'' \<and> current_price > highest_price tr then
                 let tr1 = tr\<lparr>highest_price := current_price\<rparr>;
                     new_stop = current_price * (1 - distance_percent tr1 / 100)
                 in if new_stop > stop_price tr1
                    then (None, update_stop_loss_order ex symbol new_stop
                            (st\<lparr>trailing_stops := (trailing_stops st)(symbol \<mapsto> tr1\<lparr>stop_price := new_stop\<rparr>)\<rparr>))
                    else (None, st\<lparr>trailing_stops := (trailing_stops st)(symbol \<mapsto> tr1)\<rparr>)
               else (None, st)))"

text \<open>\<open>check_price_alerts\<close>: one pass over the symbol's alerts.\<close>

definition alert_fires :: "real \<Rightarrow> alert \<Rightarrow> bool" where
  "alert_fires current_price a =
     (\<not> triggered a \<and>
      ((direction a = ''above'' \<and> current_price > alert_price a) \<or>
       (direction a = ''below'' \<and> current_price < alert_price a)))"

definition check_alert :: "real \<Rightarrow> alert \<Rightarrow> alert" where
  "check_alert current_price a = (if alert_fires current_price a then a\<lparr>triggered := True\<rparr> else a)"

definition check_price_alerts :: "symbol \<Rightarrow> real \<Rightarrow> bot \<Rightarrow> bot" where
  "check_price_alerts symbol current_price st =
     (case price_alerts st symbol of
        None \<Rightarrow> st
      | Some alerts \<Rightarrow>
          emit (map (\<lambda>a. AlertSounded symbol (message a)) (filter (alert_fires current_price) alerts))
            (st\<lparr>price_alerts := (price_alerts st)(symbol \<mapsto> map (check_alert current_price) alerts)\<rparr>))"

text \<open>\<open>check_margin_usage\<close>, \<open>set_leverage\<close>, \<open>calculate_liquidation_price\<close>.\<close>

definition check_margin_usage :: "exchange \<Rightarrow> bot \<Rightarrow> bool \<times> bot" where
  "check_margin_usage ex st =
     (case account_for_margin ex of
        Inl e \<Rightarrow> (False, emit [Called Futures_account False, ErrorLogged In_check_margin_usage e] st)
      | Inr (totalMarginBalance, totalWalletBalance) \<Rightarrow>
          if totalWalletBalance = 0
          then (False, emit [Called Futures_account True,
                             ErrorLogged In_check_margin_usage ZeroDivisionError] st)
          else (totalMarginBalance / totalWalletBalance \<le> 0.8, emit [Called Futures_account True] st))"

definition set_leverage :: "exchange \<Rightarrow> symbol \<Rightarrow> bot \<Rightarrow> bot" where
  "set_leverage ex symbol st =
     (if futures_change_leverage ex symbol
      then emit [Called (Futures_change_leverage symbol) True] st
      else emit [Called (Futures_change_leverage symbol) False, ErrorLogged In_set_leverage ExchangeError] st)"

definition calculate_liquidation_price :: "position \<Rightarrow> real" where
  "calculate_liquidation_price pos =
     (if side pos = ''long'' then entry_price pos * (1 - 1 / LEVERAGE)
      else entry_price pos * (1 + 1 / LEVERAGE))"

section \<open>Opening a position\<close>

text \<open>
  \<open>round_price\<close>: \<open>round(price / tick_size) * tick_size\<close>, where \<open>tick_size\<close> is \<open>None\<close> when
  \<open>get_tick_size\<close> found nothing (dividing by it raises \<open>TypeError\<close>).  \<open>round\<close> of a numpy
  scalar is taken to give a Python \<open>int\<close>, as it does for a float.
\<close>

definition round_price :: "number \<Rightarrow> real option \<Rightarrow> py_error + real" where
  "round_price p tick_size =
     (case tick_size of
        None \<Rightarrow> Inl TypeError
      | Some t \<Rightarrow>
          (case num_div p (PyNum t) of
             Inl e \<Rightarrow> Inl e
           | Inr q \<Rightarrow> (case py_round q of Inl e \<Rightarrow> Inl e | Inr n \<Rightarrow> Inr (of_int n * t))))"

text \<open>
  \<open>determine_target_price\<close>: \<open>None\<close> on the empty frame, else the 20-row mean of the closes
  minus the 14-row mean of \<open>high - low\<close> (either is NaN on too short a frame).
\<close>

definition determine_target_price :: "exchange \<Rightarrow> symbol \<Rightarrow> npfloat option" where
  "determine_target_price ex symbol =
     (let df = klines_for_target ex symbol
      in if df = [] then None
         else let sma_20 = rolling_mean_last 20 (map close df);
                  atr = rolling_mean_last 14 (map (\<lambda>b. high b - low b) df)
              in Some (np_sub sma_20 atr))"

text \<open>
  The arithmetic of \<open>open_position\<close> between the calls to the exchange: the two prices from
  the percentages, and the quantity from \<open>calculate_position_size\<close> and
  \<open>validate_position_size\<close>.
\<close>

definition stop_loss_price_of :: "real \<Rightarrow> number \<Rightarrow> py_error + number" where
  "stop_loss_price_of current_price stop_loss_percent =
     (case num_div stop_loss_percent (PyNum 100) of
        Inl e \<Rightarrow> Inl e
      | Inr q \<Rightarrow> Inr (num_mul (PyNum current_price) (num_sub (PyNum 1) q)))"

definition take_profit_price_of :: "real \<Rightarrow> number \<Rightarrow> py_error + number" where
  "take_profit_price_of current_price take_profit_percent =
     (case num_div take_profit_percent (PyNum 100) of
        Inl e \<Rightarrow> Inl e
      | Inr q \<Rightarrow> Inr (num_mul (PyNum current_price) (num_add (PyNum 1) q)))"

definition entry_quantity :: "real \<Rightarrow> real \<Rightarrow> number \<Rightarrow> py_error + number" where
  "entry_quantity balance current_price stop_loss_price =
     (case calculate_position_size (PyNum balance) (PyNum current_price) stop_loss_price of
        Inl e \<Rightarrow> Inl e
      | Inr q \<Rightarrow> Inr (validate_position_size q (PyNum balance)))"

text \<open>
  The three orders and the registration, once quantity and prices are known.  The
  registration is the last statement of the try block.
\<close>

definition place_orders ::
  "exchange \<Rightarrow> symbol \<Rightarrow> string \<Rightarrow> real \<Rightarrow> number \<Rightarrow> number \<Rightarrow> number \<Rightarrow> bot \<Rightarrow> py_error option \<times> bot" where
  "place_orders ex symbol sd current_price stop_loss_price take_profit_price qty st =
     (let entry = \<lparr>order_symbol = symbol,
                   order_side = (if sd = ''long'' then ''BUY'' else ''SELL''),
                   order_type = ''MARKET'', stopPrice = None, order_quantity = qty\<rparr>
      in if \<not> futures_create_order ex entry
         then (Some ExchangeError, emit [Called (Futures_create_order entry) False] st)
         else
           let st1 = emit [Called (Futures_create_order entry) True] st;
               tick_size = get_tick_size ex symbol
           in (case round_price stop_loss_price tick_size of
                 Inl e \<Rightarrow> (Some e, st1)
               | Inr sl \<Rightarrow>
                   (case round_price take_profit_price tick_size of
                      Inl e \<Rightarrow> (Some e, st1)
                    | Inr tp \<Rightarrow>
                        let stop_order_side = (if sd = ''long'' then ''SELL'' else ''BUY'');
                            sl_order = \<lparr>order_symbol = symbol, order_side = stop_order_side,
                                        order_type = ''STOP_MARKET'', stopPrice = Some sl,
                                        order_quantity = qty\<rparr>;
                            tp_order = \<lparr>order_symbol = symbol, order_side = stop_order_side,
                                        order_type = ''TAKE_PROFIT_MARKET'', stopPrice = Some tp,
                                        order_quantity = qty\<rparr>
                        in if \<not> futures_create_order ex sl_order
                           then (Some ExchangeError, emit [Called (Futures_create_order sl_order) False] st1)
                           else
                             let st2 = emit [Called (Futures_create_order sl_order) True] st1
                             in if \<not> futures_create_order ex tp_order
                                then (Some ExchangeError,
                                      emit [Called (Futures_create_order tp_order) False] st2)
                                else
                                  let st3 = emit [Called (Futures_create_order tp_order) True] st2
                                  in (None, st3\<lparr>open_positions :=
                                        AList.update symbol
                                          \<lparr>side = sd, quantity = qty, entry_price = current_price,
                                           stop_loss = sl, take_profit = tp\<rparr>
                                          (open_positions st3)\<rparr>))))"

text \<open>The part of the try block of \<open>open_position\<close> after the three guards.\<close>

definition enter :: "exchange \<Rightarrow> symbol \<Rightarrow> string \<Rightarrow> real \<Rightarrow> bot \<Rightarrow> py_error option \<times> bot" where
  "enter ex symbol sd current_price st =
     (case account_for_balance ex of
        Inl e \<Rightarrow> (Some e, emit [Called Futures_account False] st)
      | Inr balance \<Rightarrow>
          let st1 = emit [Called Futures_account True] st;
              df = klines_for_entry ex symbol;
              (stop_loss_percent, take_profit_percent) = calculate_dynamic_stops df
          in (case stop_loss_price_of current_price stop_loss_percent of
                Inl e \<Rightarrow> (Some e, st1)
              | Inr stop_loss_price \<Rightarrow>
                  (case take_profit_price_of current_price take_profit_percent of
                     Inl e \<Rightarrow> (Some e, st1)
                   | Inr take_profit_price \<Rightarrow>
                       (case entry_quantity balance current_price stop_loss_price of
                          Inl e \<Rightarrow> (Some e, st1)
                        | Inr qty \<Rightarrow>
                            place_orders ex symbol sd current_price
                              stop_loss_price take_profit_price qty st1))))"

text \<open>
  \<open>open_position\<close>: margin check, leverage, entry conditions, then the entry; whatever is
  raised is logged by the except clause and the function returns.
\<close>

definition open_position :: "exchange \<Rightarrow> symbol \<Rightarrow> string \<Rightarrow> real \<Rightarrow> bot \<Rightarrow> bot" where
  "open_position ex symbol sd current_price st =
     (let (margin_ok, st1) = check_margin_usage ex st
      in if \<not> margin_ok then emit [WarningLogged ''margin usage too high''] st1
         else
           let st2 = set_leverage ex symbol st1;
               (conditions_ok, st3) = check_entry_conditions ex symbol current_price st2
           in if \<not> conditions_ok then st3
              else (case enter ex symbol sd current_price st3 of
                      (None, st4) \<Rightarrow> st4
                    | (Some e, st4) \<Rightarrow> emit [ErrorLogged In_open_position e] st4))"

section \<open>PriceAnalyzer\<close>

text \<open>
  The volatility of the last 20 prices.  The logarithm of a price that is not positive is
  an infinity or NaN, and the standard deviation of returns that are not all finite is NaN.
\<close>

definition volatility_of :: "real list \<Rightarrow> npfloat" where
  "volatility_of prices =
     (if list_all (\<lambda>p. 0 < p) prices
      then Fin (np_std (np_diff (map ln prices)) * sqrt 20 * 100)
      else NaN)"

definition update_volatility :: "symbol \<Rightarrow> bot \<Rightarrow> py_error option \<times> bot" where
  "update_volatility symbol st =
     (case price_history st symbol of
        None \<Rightarrow> (Some KeyError, st)
      | Some hist \<Rightarrow>
          if length hist < 20 then (None, st)
          else
            let prices = map price (drop (length hist - 20) hist);
                vol = volatility_of prices;
                st1 = st\<lparr>volatility := (volatility st)(symbol \<mapsto> vol)\<rparr>
            in if np_lt (Fin 100) vol
               then (None, add_price_alert symbol (last prices) ''both'' (HighVolatility vol) st1)
               else (None, st1))"

definition update_price_data :: "symbol \<Rightarrow> real \<Rightarrow> nat \<Rightarrow> bot \<Rightarrow> py_error option \<times> bot" where
  "update_price_data symbol p ts st =
     (let hist = (case price_history st symbol of None \<Rightarrow> [] | Some h \<Rightarrow> h)
                   @ [\<lparr>price = p, timestamp = ts\<rparr>];
          hist = (if length hist > 1000 then drop (length hist - 1000) hist else hist)
      in update_volatility symbol (st\<lparr>price_history := (price_history st)(symbol \<mapsto> hist)\<rparr>))"

section \<open>The tick handler\<close>

record msg =
  msg_e :: string
  msg_s :: symbol
  msg_p :: real
  msg_E :: nat

text \<open>
  \<open>RiskManager\<close> defines no method \<open>partial_close_position\<close>, and nothing else in the
  repository does: looking the attribute up raises \<open>AttributeError\<close>, after the amount has
  been computed and before anything is called.
\<close>

definition partial_close_position :: "symbol \<Rightarrow> number \<Rightarrow> bot \<Rightarrow> py_error option \<times> bot" where
  "partial_close_position symbol close_amount st = (Some AttributeError, st)"

text \<open>The loop over the ladder with its \<open>break\<close>: the first level whose threshold is met.\<close>

fun first_level :: "real \<Rightarrow> level list \<Rightarrow> level option" where
  "first_level pnl_percent [] = None"
| "first_level pnl_percent (l # ls) =
     (if pnl_percent \<ge> profit l then Some l else first_level pnl_percent ls)"

definition pnl_percent_of :: "position \<Rightarrow> real \<Rightarrow> py_error + real" where
  "pnl_percent_of pos p =
     (if entry_price pos = 0 then Inl ZeroDivisionError
      else Inr ((p - entry_price pos) / entry_price pos * 100 * (if side pos = ''long'' then 1 else - 1)))"

definition check_partial_close :: "symbol \<Rightarrow> real \<Rightarrow> bot \<Rightarrow> py_error option \<times> bot" where
  "check_partial_close symbol p st =
     (case map_of (open_positions st) symbol of
        None \<Rightarrow> (None, st)
      | Some pos \<Rightarrow>
          (case pnl_percent_of pos p of
             Inl e \<Rightarrow> (Some e, st)
           | Inr pnl_percent \<Rightarrow>
               (case first_level pnl_percent PARTIAL_CLOSE_LEVELS of
                  None \<Rightarrow> (None, st)
                | Some l \<Rightarrow>
                    let close_amount = num_mul (quantity pos) (PyNum (close_percent l))
                    in partial_close_position symbol close_amount st)))"

text \<open>The block run when the price differs from the previous one of the symbol.\<close>

definition on_new_price :: "exchange \<Rightarrow> symbol \<Rightarrow> real \<Rightarrow> nat \<Rightarrow> bot \<Rightarrow> py_error option \<times> bot" where
  "on_new_price ex symbol p ts st =
     (case update_price_data symbol p ts (st\<lparr>previous_prices := (previous_prices st)(symbol \<mapsto> p)\<rparr>) of
        (Some e, st1) \<Rightarrow> (Some e, st1)
      | (None, st1) \<Rightarrow>
          (case update_trailing_stop ex symbol p st1 of
             (Some e, st2) \<Rightarrow> (Some e, st2)
           | (None, st2) \<Rightarrow> check_partial_close symbol p (check_price_alerts symbol p st2)))"

definition refresh_target :: "exchange \<Rightarrow> symbol \<Rightarrow> bot \<Rightarrow> bot" where
  "refresh_target ex symbol st =
     (case TARGET_PRICES st symbol of
        Some (Some t) \<Rightarrow> st
      | _ \<Rightarrow> st\<lparr>TARGET_PRICES := (TARGET_PRICES st)(symbol \<mapsto> determine_target_price ex symbol)\<rparr>)"

text \<open>
  The entry decision; the first component says that the handler returned (entry
  cancelled for high volatility).  A target is truthy unless it is \<open>None\<close> or zero.
\<close>

definition try_entry :: "exchange \<Rightarrow> symbol \<Rightarrow> real \<Rightarrow> bot \<Rightarrow> bool \<times> bot" where
  "try_entry ex symbol p st =
     (case TARGET_PRICES st symbol of
        Some (Some target_price) \<Rightarrow>
          if target_price \<noteq> Fin 0 \<and> np_le (Fin p) target_price then
            (case volatility st symbol of
               Some vol \<Rightarrow>
                 if np_lt (Fin 100) vol
                 then (True, emit [WarningLogged ''entry cancelled: high volatility''] st)
                 else (False, open_position ex symbol ''long'' p st)
             | None \<Rightarrow> (False, open_position ex symbol ''long'' p st))
          else (False, st)
      | _ \<Rightarrow> (False, st))"

definition check_liquidation :: "symbol \<Rightarrow> real \<Rightarrow> bot \<Rightarrow> py_error option \<times> bot" where
  "check_liquidation symbol p st =
     (case map_of (open_positions st) symbol of
        None \<Rightarrow> (None, st)
      | Some pos \<Rightarrow>
          let liq_price = calculate_liquidation_price pos
          in if p = 0 then (Some ZeroDivisionError, st)
             else if \<bar>p - liq_price\<bar> / p < 0.2
                  then (None, emit [WarningLogged ''price close to liquidation''] st)
                  else (None, st))"

definition handler_body :: "exchange \<Rightarrow> msg \<Rightarrow> bot \<Rightarrow> py_error option \<times> bot" where
  "handler_body ex m st =
     (let symbol = msg_s m; p = msg_p m; ts = msg_E m
      in (case (if previous_prices st symbol \<noteq> Some p then on_new_price ex symbol p ts st
                else (None, st)) of
            (Some e, st1) \<Rightarrow> (Some e, st1)
          | (None, st1) \<Rightarrow>
              (case try_entry ex symbol p (refresh_target ex symbol st1) of
                 (True, st2) \<Rightarrow> (None, st2)
               | (False, st2) \<Rightarrow> check_liquidation symbol p st2)))"

definition handle_socket_message :: "exchange \<Rightarrow> msg \<Rightarrow> bot \<Rightarrow> bot" where
  "handle_socket_message ex m st =
     (if msg_e m = ''aggTrade'' then
        (case handler_body ex m st of
           (None, st1) \<Rightarrow> st1
         | (Some e, st1) \<Rightarrow> emit [ErrorLogged In_handle_socket_message e] st1)
      else st)"

text \<open>A run of the handler over a sequence of ticks, each with what the exchange answers during it.\<close>

fun run :: "(exchange \<times> msg) list \<Rightarrow> bot \<Rightarrow> bot" where
  "run [] st = st"
| "run ((ex, m) # ticks) st = run ticks (handle_socket_message ex m st)"

section \<open>Predicates and inputs used in the statements\<close>

text \<open>
  A trailing stop is in order when its distance is not negative, its highest price is
  positive and its stop is not above its highest price.
\<close>

definition trailing_ok :: "trailing \<Rightarrow> bool" where
  "trailing_ok t = (0 \<le> distance_percent t \<and> 0 < highest_price t \<and> stop_price t \<le> highest_price t)"

text \<open>How a trailing stop can have changed after ticks whose prices (for its symbol) are \<open>ps\<close>.\<close>

definition later :: "real set \<Rightarrow> trailing \<Rightarrow> trailing \<Rightarrow> bool" where
  "later ps t t' = (stop_price t \<le> stop_price t' \<and> distance_percent t' = distance_percent t
     \<and> highest_price t \<le> highest_price t'
     \<and> (highest_price t' = highest_price t \<or> highest_price t' \<in> ps)
     \<and> (trailing_ok t \<longrightarrow> trailing_ok t'))"

definition tick_prices :: "symbol \<Rightarrow> (exchange \<times> msg) list \<Rightarrow> real set" where
  "tick_prices symbol ticks = {msg_p m | ex m. (ex, m) \<in> set ticks \<and> msg_s m = symbol}"

text \<open>An exchange that answers nothing, a long position of 10 units opened at 100, and ticks for its symbol.\<close>

definition exchange_down :: exchange where
  "exchange_down =
     \<lparr>account_for_margin = Inl ExchangeError,
      account_for_balance = Inl ExchangeError,
      futures_change_leverage = (\<lambda>s. False),
      futures_ticker = (\<lambda>s. Inl ExchangeError),
      futures_order_book = (\<lambda>s. Inl ExchangeError),
      futures_get_open_orders = (\<lambda>s. Inl ExchangeError),
      futures_cancel_order = (\<lambda>s n. False),
      futures_create_order = (\<lambda>ord. False),
      klines_for_entry = (\<lambda>s. []),
      klines_for_target = (\<lambda>s. []),
      get_tick_size = (\<lambda>s. None)\<rparr>"

definition btc_long :: position where
  "btc_long = \<lparr>side = ''long'', quantity = PyNum 10, entry_price = 100, stop_loss = 98, take_profit = 103\<rparr>"

definition bot_with_btc :: bot where
  "bot_with_btc =
     \<lparr>previous_prices = Map.empty, price_history = Map.empty, volatility = Map.empty,
      open_positions = [(''BTCUSDT'', btc_long)],
      price_alerts = Map.empty, trailing_stops = Map.empty, TARGET_PRICES = Map.empty,
      journal = []\<rparr>"

definition tick :: "real \<Rightarrow> nat \<Rightarrow> msg" where
  "tick p ts = \<lparr>msg_e = ''aggTrade'', msg_s = ''BTCUSDT'', msg_p = p, msg_E = ts\<rparr>"

text \<open>A short position of 10 units opened at 100, and the state that holds it.\<close>

definition btc_short :: position where
  "btc_short = \<lparr>side = ''short'', quantity = PyNum 10, entry_price = 100, stop_loss = 102, take_profit = 97\<rparr>"

definition bot_with_short :: bot where
  "bot_with_short = bot_with_btc\<lparr>open_positions := [(''BTCUSDT'', btc_short)]\<rparr>"

text \<open>The alert at index \<open>i\<close> of the symbol's list is \<open>a\<close>.\<close>

definition holds_alert :: "symbol \<Rightarrow> nat \<Rightarrow> alert \<Rightarrow> bot \<Rightarrow> bool" where
  "holds_alert symbol i a st =
     (\<exists>alerts. price_alerts st symbol = Some alerts \<and> i < length alerts \<and> alerts ! i = a)"

text \<open>The state with the position and one untriggered alert of direction \<open>both\<close>.\<close>

definition volatility_alert :: alert where
  "volatility_alert =
     \<lparr>alert_price = 100, direction = ''both'', message = HighVolatility (Fin 120), triggered = False\<rparr>"

definition bot_with_alert :: bot where
  "bot_with_alert = bot_with_btc\<lparr>price_alerts := [''BTCUSDT'' \<mapsto> [volatility_alert]]\<rparr>"

text \<open>The symbol's history once \<open>update_price_data\<close> has appended a sample and cut the list to 1000.\<close>

definition recorded :: "symbol \<Rightarrow> real \<Rightarrow> nat \<Rightarrow> bot \<Rightarrow> sample list" where
  "recorded symbol p ts st =
     (let hist = (case price_history st symbol of None \<Rightarrow> [] | Some h \<Rightarrow> h) @ [\<lparr>price = p, timestamp = ts\<rparr>]
      in if length hist > 1000 then drop (length hist - 1000) hist else hist)"

text \<open>The state with 19 samples at the price 100.\<close>

definition bot_with_history :: bot where
  "bot_with_history = bot_with_btc\<lparr>price_history := [''BTCUSDT'' \<mapsto> replicate 19 \<lparr>price = 100, timestamp = 0\<rparr>]\<rparr>"

text \<open>A bar with high 101, low 99 and close 100, and a frame of fourteen of them.\<close>

definition flat_bar :: bar where "flat_bar = \<lparr>high = 101, low = 99, close = 100\<rparr>"

definition flat_bars :: "bar list" where
  "flat_bars = [flat_bar, flat_bar, flat_bar, flat_bar, flat_bar, flat_bar, flat_bar,
                flat_bar, flat_bar, flat_bar, flat_bar, flat_bar, flat_bar, flat_bar]"

text \<open>
  An event that is not the creation of an order, or creates a \<open>STOP_MARKET\<close> order (the
  only order that \<open>update_stop_loss_order\<close> creates); \<open>quiet\<close>: the journal grew by such
  events only.  Two positions hold the same when side, quantity and entry price agree.
\<close>

fun stop_only :: "event \<Rightarrow> bool" where
  "stop_only (Called c ok) =
     (case c of Futures_create_order ord \<Rightarrow> order_type ord = ''STOP_MARKET'' | _ \<Rightarrow> True)"
| "stop_only ev = True"

definition quiet :: "bot \<Rightarrow> bot \<Rightarrow> bool" where
  "quiet st st' = (\<exists>evs. journal st' = journal st @ evs \<and> list_all stop_only evs)"

definition same_holding :: "position \<Rightarrow> position \<Rightarrow> bool" where
  "same_holding pos pos' =
     (side pos' = side pos \<and> quantity pos' = quantity pos \<and> entry_price pos' = entry_price pos)"

text \<open>An exchange that answers every call, with a liquid market and a quiet frame of bars.\<close>

definition exchange_up :: exchange where
  "exchange_up =
     \<lparr>account_for_margin = Inr (1000, 10000),
      account_for_balance = Inr 10000,
      futures_change_leverage = (\<lambda>s. True),
      futures_ticker = (\<lambda>s. Inr (50000, 100)),
      futures_order_book = (\<lambda>s. Inr ([100.05], [100])),
      futures_get_open_orders = (\<lambda>s. Inr []),
      futures_cancel_order = (\<lambda>s n. True),
      futures_create_order = (\<lambda>ord. True),
      klines_for_entry = (\<lambda>s. flat_bars),
      klines_for_target = (\<lambda>s. flat_bars),
      get_tick_size = (\<lambda>s. Some 0.1)\<rparr>"

text \<open>The orders among a list of events, each with whether the exchange accepted it.\<close>

fun order_event :: "event \<Rightarrow> (order \<times> bool) list" where
  "order_event (Called c ok) = (case c of Futures_create_order ord \<Rightarrow> [(ord, ok)] | _ \<Rightarrow> [])"
| "order_event ev = []"

definition order_events :: "event list \<Rightarrow> (order \<times> bool) list" where
  "order_events evs = concat (map order_event evs)"

text \<open>What was added to the journal between two states.\<close>

definition added :: "bot \<Rightarrow> bot \<Rightarrow> event list" where
  "added st st' = drop (length (journal st)) (journal st')"

definition grows :: "bot \<Rightarrow> bot \<Rightarrow> bool" where
  "grows st st' = (journal st' = journal st @ added st st')"

text \<open>The orders that one call of \<open>open_position\<close> can have sent, and whether it registered the position.\<close>

definition entry_outcome :: "symbol \<Rightarrow> (order \<times> bool) list \<Rightarrow> bool \<Rightarrow> bool" where
  "entry_outcome symbol os registered =
     (\<exists>entry slo tpo.
        order_type entry = ''MARKET'' \<and> order_symbol entry = symbol \<and>
        order_type slo = ''STOP_MARKET'' \<and> order_type tpo = ''TAKE_PROFIT_MARKET'' \<and>
        ((os = [] \<and> \<not> registered) \<or>
         (os = [(entry, False)] \<and> \<not> registered) \<or>
         (os = [(entry, True)] \<and> \<not> registered) \<or>
         (os = [(entry, True), (slo, False)] \<and> \<not> registered) \<or>
         (os = [(entry, True), (slo, True), (tpo, False)] \<and> \<not> registered) \<or>
         (os = [(entry, True), (slo, True), (tpo, True)] \<and> registered)))"

text \<open>
  An exchange that fills the entry order and rejects every other order; a bot with no
  position; the two orders that \<open>open_position\<close> sends for \<open>ETHUSDT\<close> at the price 100; a
  bot with three positions.
\<close>

definition exchange_stop_rejected :: exchange where
  "exchange_stop_rejected = exchange_up\<lparr>futures_create_order := (\<lambda>ord. order_type ord = ''MARKET'')\<rparr>"

definition bot_empty :: bot where
  "bot_empty =
     \<lparr>previous_prices = Map.empty, price_history = Map.empty, volatility = Map.empty,
      open_positions = [],
      price_alerts = Map.empty, trailing_stops = Map.empty, TARGET_PRICES = Map.empty,
      journal = []\<rparr>"

definition eth_entry :: order where
  "eth_entry = \<lparr>order_symbol = ''ETHUSDT'', order_side = ''BUY'', order_type = ''MARKET'',
                stopPrice = None, order_quantity = NpNum (Fin 75)\<rparr>"

definition eth_stop :: order where
  "eth_stop = \<lparr>order_symbol = ''ETHUSDT'', order_side = ''SELL'', order_type = ''STOP_MARKET'',
               stopPrice = Some 96, order_quantity = NpNum (Fin 75)\<rparr>"

definition bot_full :: bot where
  "bot_full = bot_empty\<lparr>open_positions :=
       [(''BTCUSDT'', btc_long), (''BNBUSDT'', btc_long), (''SOLUSDT'', btc_long)]\<rparr>"

text \<open>The exchange that answers every call and has one bar of history for the entry.\<close>

definition exchange_one_bar :: exchange where
  "exchange_one_bar = exchange_up\<lparr>klines_for_entry := (\<lambda>s. [flat_bar])\<rparr>"

text \<open>
  Among the orders of one call of \<open>open_position\<close>: the entry order was filled; both the
  stop-loss and the take-profit order were placed.  An exchange that fills every order
  and knows no tick size for any symbol.
\<close>

definition entry_filled :: "(order \<times> bool) list \<Rightarrow> bool" where
  "entry_filled os = list_ex (\<lambda>(ord, ok). ok \<and> order_type ord = ''MARKET'') os"

definition protective_placed :: "(order \<times> bool) list \<Rightarrow> bool" where
  "protective_placed os =
     (list_ex (\<lambda>(ord, ok). ok \<and> order_type ord = ''STOP_MARKET'') os \<and>
      list_ex (\<lambda>(ord, ok). ok \<and> order_type ord = ''TAKE_PROFIT_MARKET'') os)"

definition exchange_no_tick_size :: exchange where
  "exchange_no_tick_size = exchange_up\<lparr>get_tick_size := (\<lambda>s. None)\<rparr>"

text \<open>
  The exchange calls among a list of events, and the five conditions of the entry gate,
  a failed fetch (or a division by zero on what was fetched) counting as a condition
  not met.  \<open>target_met\<close> is the handler's test that the price has reached the target.
\<close>

fun call_of :: "event \<Rightarrow> call list" where
  "call_of (Called c ok) = [c]"
| "call_of ev = []"

definition calls_of :: "event list \<Rightarrow> call list" where
  "calls_of evs = concat (map call_of evs)"

definition margin_ok :: "exchange \<Rightarrow> bool" where
  "margin_ok ex =
     (case account_for_margin ex of Inl e \<Rightarrow> False | Inr (m, w) \<Rightarrow> w \<noteq> 0 \<and> m / w \<le> 0.8)"

definition count_ok :: "bot \<Rightarrow> bool" where
  "count_ok st = (length (open_positions st) < MAX_POSITIONS)"

definition volume_ok :: "exchange \<Rightarrow> symbol \<Rightarrow> bool" where
  "volume_ok ex symbol =
     (case futures_ticker ex symbol of Inl e \<Rightarrow> False | Inr (v, lp) \<Rightarrow> v * lp \<ge> MIN_VOLUME_USD)"

definition spread_ok :: "exchange \<Rightarrow> symbol \<Rightarrow> bool" where
  "spread_ok ex symbol =
     (case futures_order_book ex symbol of
        Inl e \<Rightarrow> False
      | Inr (asks, bids) \<Rightarrow>
          (case spread_percent asks bids of Inl e \<Rightarrow> False | Inr sp \<Rightarrow> sp \<le> MAX_SPREAD_PERCENT))"

definition volatility_ok :: "bot \<Rightarrow> symbol \<Rightarrow> bool" where
  "volatility_ok st symbol =
     (case volatility st symbol of None \<Rightarrow> True | Some vol \<Rightarrow> \<not> np_lt (Fin 100) vol)"

definition target_met :: "bot \<Rightarrow> symbol \<Rightarrow> real \<Rightarrow> bool" where
  "target_met st symbol p =
     (case TARGET_PRICES st symbol of
        Some (Some target_price) \<Rightarrow> target_price \<noteq> Fin 0 \<and> np_le (Fin p) target_price
      | _ \<Rightarrow> False)"

text \<open>
  The guards of \<open>open_position\<close> before the entry, as the code runs them: the margin
  check, then the leverage, then \<open>check_entry_conditions\<close>.
\<close>

definition entry_guards :: "exchange \<Rightarrow> symbol \<Rightarrow> real \<Rightarrow> bot \<Rightarrow> bool \<times> bot" where
  "entry_guards ex symbol p st =
     (let (m_ok, st1) = check_margin_usage ex st
      in if \<not> m_ok then (False, emit [WarningLogged ''margin usage too high''] st1)
         else check_entry_conditions ex symbol p (set_leverage ex symbol st1))"

text \<open>
  The gate as the specification words it: the five checks in the order (1) to (5),
  stopping at the first that fails, with the exchange calls made on the way.
\<close>

definition can_enter_spec :: "exchange \<Rightarrow> symbol \<Rightarrow> bot \<Rightarrow> bool \<times> call list" where
  "can_enter_spec ex symbol st =
     (if \<not> count_ok st then (False, [])
      else if \<not> volume_ok ex symbol then (False, [Futures_ticker symbol])
      else if \<not> spread_ok ex symbol then (False, [Futures_ticker symbol, Futures_order_book symbol])
      else if \<not> margin_ok ex
           then (False, [Futures_ticker symbol, Futures_order_book symbol, Futures_account])
           else ((case volatility st symbol of None \<Rightarrow> True | Some vol \<Rightarrow> np_le vol (Fin 100)),
                 [Futures_ticker symbol, Futures_order_book symbol, Futures_account]))"

text \<open>Twenty prices going back and forth between 1 and 3, and the state that holds the first nineteen.\<close>

definition alternating :: "real list" where
  "alternating = [1, 3, 1, 3, 1, 3, 1, 3, 1, 3, 1, 3, 1, 3, 1, 3, 1, 3, 1, 3]"

definition bot_alternating :: bot where
  "bot_alternating = bot_with_btc\<lparr>price_history :=
       [''BTCUSDT'' \<mapsto> map (\<lambda>q. \<lparr>price = q, timestamp = 0\<rparr>) (butlast alternating)]\<rparr>"

section \<open>Supporting lemmas\<close>

text \<open>What each function leaves alone.\<close>

lemma emit_fields [simp]:
  "price_alerts (emit evs st) = price_alerts st"
  "trailing_stops (emit evs st) = trailing_stops st"
  "open_positions (emit evs st) = open_positions st"
  "previous_prices (emit evs st) = previous_prices st"
  "price_history (emit evs st) = price_history st"
  "volatility (emit evs st) = volatility st"
  "TARGET_PRICES (emit evs st) = TARGET_PRICES st"
  "journal (emit evs st) = journal st @ evs"
  by (simp_all add: emit_def)

lemma cancel_stop_orders_frame:
  "cancel_stop_orders ex symbol os st = (r, st') \<Longrightarrow>
     price_alerts st' = price_alerts st \<and> trailing_stops st' = trailing_stops st
     \<and> open_positions st' = open_positions st"
  by (induction os arbitrary: st) (auto split: if_splits)

lemma replace_stop_order_frame:
  "replace_stop_order ex symbol p st = (r, st') \<Longrightarrow>
     price_alerts st' = price_alerts st \<and> trailing_stops st' = trailing_stops st"
  by (auto simp: replace_stop_order_def Let_def split: option.splits sum.splits prod.splits if_splits
      dest!: cancel_stop_orders_frame)

lemma update_stop_loss_order_frame [simp]:
  "price_alerts (update_stop_loss_order ex symbol p st) = price_alerts st"
  "trailing_stops (update_stop_loss_order ex symbol p st) = trailing_stops st"
  by (auto simp: update_stop_loss_order_def split: prod.splits option.splits dest!: replace_stop_order_frame)

lemma place_orders_frame:
  "place_orders ex symbol sd cp sl tp q st = (r, st') \<Longrightarrow>
     price_alerts st' = price_alerts st \<and> trailing_stops st' = trailing_stops st"
  by (auto simp: place_orders_def Let_def split: option.splits sum.splits if_splits)

lemma enter_frame:
  "enter ex symbol sd cp st = (r, st') \<Longrightarrow>
     price_alerts st' = price_alerts st \<and> trailing_stops st' = trailing_stops st"
  by (auto simp: enter_def Let_def split: option.splits sum.splits if_splits prod.splits dest!: place_orders_frame)

lemma check_margin_usage_frame:
  "check_margin_usage ex st = (r, st') \<Longrightarrow>
     price_alerts st' = price_alerts st \<and> trailing_stops st' = trailing_stops st \<and> open_positions st' = open_positions st"
  by (auto simp: check_margin_usage_def split: sum.splits if_splits prod.splits)

lemma check_entry_conditions_frame:
  "check_entry_conditions ex symbol p st = (r, st') \<Longrightarrow>
     price_alerts st' = price_alerts st \<and> trailing_stops st' = trailing_stops st \<and> open_positions st' = open_positions st"
  by (auto simp: check_entry_conditions_def Let_def split: sum.splits if_splits prod.splits)

lemma set_leverage_frame [simp]:
  "price_alerts (set_leverage ex symbol st) = price_alerts st"
  "trailing_stops (set_leverage ex symbol st) = trailing_stops st"
  "open_positions (set_leverage ex symbol st) = open_positions st"
  by (simp_all add: set_leverage_def)

lemma open_position_frame [simp]:
  "price_alerts (open_position ex symbol sd p st) = price_alerts st"
  "trailing_stops (open_position ex symbol sd p st) = trailing_stops st"
  by (auto simp: open_position_def Let_def split: prod.splits option.splits
        dest!: check_margin_usage_frame check_entry_conditions_frame enter_frame)


lemma later_refl: "later ps t t"
  by (simp add: later_def)

lemma later_trans:
  assumes "later ps t t'" and "later qs t' t''"
  shows "later (ps \<union> qs) t t''"
proof -
  have a: "stop_price t \<le> stop_price t''" using assms by (simp add: later_def)
  have b: "distance_percent t'' = distance_percent t" using assms by (simp add: later_def)
  have c: "highest_price t \<le> highest_price t''" using assms by (simp add: later_def)
  have d1: "highest_price t' = highest_price t \<or> highest_price t' \<in> ps" using assms(1) by (simp add: later_def)
  have d2: "highest_price t'' = highest_price t' \<or> highest_price t'' \<in> qs" using assms(2) by (simp add: later_def)
  have d: "highest_price t'' = highest_price t \<or> highest_price t'' \<in> ps \<union> qs"
    using d1 d2 by auto
  have e: "trailing_ok t \<longrightarrow> trailing_ok t''" using assms by (simp add: later_def)
  from a b c d e show ?thesis unfolding later_def by blast
qed

lemma raise_ok:
  assumes "trailing_ok t" "highest_price t < p"
  shows "p * (1 - distance_percent t / 100) \<le> p"
proof -
  from assms have "0 < p" "0 \<le> distance_percent t" by (auto simp: trailing_ok_def)
  then have "0 \<le> p * (distance_percent t / 100)" by simp
  then show ?thesis by (simp add: algebra_simps)
qed

lemma later_raise:
  assumes "highest_price t < p"
  shows "later {p} t (t\<lparr>highest_price := p\<rparr>)"
  using assms by (simp add: later_def trailing_ok_def)

lemma later_raise_stop:
  assumes "highest_price t < p" and "stop_price t < p * (1 - distance_percent t / 100)"
  shows "later {p} t (t\<lparr>highest_price := p, stop_price := p * (1 - distance_percent t / 100)\<rparr>)"
  using assms raise_ok[of t p] by (simp add: later_def trailing_ok_def)

lemma update_trailing_stop_cases:
  assumes "trailing_stops st symbol = Some t" and "update_trailing_stop ex s p st = (r, st')"
  shows "trailing_stops st' symbol = Some t
       \<or> (highest_price t < p \<and> trailing_stops st' symbol = Some (t\<lparr>highest_price := p\<rparr>))
       \<or> (highest_price t < p \<and> stop_price t < p * (1 - distance_percent t / 100)
           \<and> trailing_stops st' symbol = Some (t\<lparr>highest_price := p, stop_price := p * (1 - distance_percent t / 100)\<rparr>))"
  using assms
  by (cases "s = symbol")
     (auto simp: update_trailing_stop_def Let_def split: option.splits if_splits)

lemma update_trailing_stop_later:
  assumes "trailing_stops st symbol = Some t" and "update_trailing_stop ex s p st = (r, st')"
  shows "\<exists>t'. trailing_stops st' symbol = Some t' \<and> later {p} t t'"
  using update_trailing_stop_cases[OF assms] later_refl later_raise later_raise_stop by blast


lemma update_trailing_stop_other:
  assumes "update_trailing_stop ex s p st = (r, st')" and "s \<noteq> symbol"
  shows "trailing_stops st' symbol = trailing_stops st symbol"
  using assms
  by (auto simp: update_trailing_stop_def Let_def split: option.splits if_splits)

lemma update_trailing_stop_alerts:
  assumes "update_trailing_stop ex s p st = (r, st')"
  shows "price_alerts st' = price_alerts st"
  using assms
  by (auto simp: update_trailing_stop_def Let_def split: option.splits if_splits)

lemma add_price_alert_trailing [simp]:
  "trailing_stops (add_price_alert s p d m st) = trailing_stops st"
  by (simp add: add_price_alert_def Let_def)

lemma update_volatility_trailing:
  "update_volatility s st = (r, st') \<Longrightarrow> trailing_stops st' = trailing_stops st"
  by (auto simp: update_volatility_def Let_def split: option.splits if_splits)

lemma update_price_data_trailing:
  "update_price_data s p ts st = (r, st') \<Longrightarrow> trailing_stops st' = trailing_stops st"
  by (auto simp: update_price_data_def Let_def dest!: update_volatility_trailing)

lemma check_price_alerts_trailing [simp]:
  "trailing_stops (check_price_alerts s p st) = trailing_stops st"
  by (simp add: check_price_alerts_def split: option.splits)

lemma check_partial_close_state:
  "check_partial_close s p st = (r, st') \<Longrightarrow> st' = st"
  by (auto simp: check_partial_close_def partial_close_position_def Let_def split: option.splits sum.splits)

lemma refresh_target_frame [simp]:
  "trailing_stops (refresh_target ex s st) = trailing_stops st"
  "price_alerts (refresh_target ex s st) = price_alerts st"
  "open_positions (refresh_target ex s st) = open_positions st"
  "journal (refresh_target ex s st) = journal st"
  by (simp_all add: refresh_target_def split: option.splits)

lemma try_entry_frame:
  "try_entry ex s p st = (r, st') \<Longrightarrow> trailing_stops st' = trailing_stops st \<and> price_alerts st' = price_alerts st"
  by (auto simp: try_entry_def split: option.splits if_splits)

lemma check_liquidation_frame:
  "check_liquidation s p st = (r, st') \<Longrightarrow> trailing_stops st' = trailing_stops st \<and> price_alerts st' = price_alerts st
     \<and> open_positions st' = open_positions st"
  by (auto simp: check_liquidation_def Let_def split: option.splits if_splits)

lemma on_new_price_later:
  assumes "trailing_stops st symbol = Some t" and "on_new_price ex s p ts st = (r, st')"
  shows "\<exists>t'. trailing_stops st' symbol = Some t' \<and> later (if s = symbol then {p} else {}) t t'"
proof -
  obtain r1 st1 where u: "update_price_data s p ts (st\<lparr>previous_prices := (previous_prices st)(s \<mapsto> p)\<rparr>) = (r1, st1)"
    by (cases "update_price_data s p ts (st\<lparr>previous_prices := (previous_prices st)(s \<mapsto> p)\<rparr>)")
  have t1: "trailing_stops st1 symbol = Some t"
    using update_price_data_trailing[OF u] assms(1) by simp
  show ?thesis
  proof (cases r1)
    case (Some e)
    with u assms(2) have "st' = st1" by (simp add: on_new_price_def)
    with t1 show ?thesis by (auto simp: later_refl)
  next
    case None
    obtain r2 st2 where v: "update_trailing_stop ex s p st1 = (r2, st2)"
      by (cases "update_trailing_stop ex s p st1")
    have l2: "\<exists>t'. trailing_stops st2 symbol = Some t' \<and> later (if s = symbol then {p} else {}) t t'"
    proof (cases "s = symbol")
      case True
      then show ?thesis using update_trailing_stop_later[OF t1 v] by simp
    next
      case False
      then show ?thesis using update_trailing_stop_other[OF v, of symbol] t1 by (simp add: later_refl)
    qed
    have "trailing_stops st' = trailing_stops st2"
    proof (cases r2)
      case (Some e)
      with u v None assms(2) show ?thesis by (simp add: on_new_price_def)
    next
      case n2: None
      with u v None assms(2) have "check_partial_close s p (check_price_alerts s p st2) = (r, st')"
        by (simp add: on_new_price_def)
      from check_partial_close_state[OF this] show ?thesis by simp
    qed
    with l2 show ?thesis by simp
  qed
qed

lemma handler_body_later:
  assumes "trailing_stops st symbol = Some t" and "handler_body ex m st = (r, st')"
  shows "\<exists>t'. trailing_stops st' symbol = Some t' \<and> later (if msg_s m = symbol then {msg_p m} else {}) t t'"
proof -
  define first where "first = (if previous_prices st (msg_s m) \<noteq> Some (msg_p m)
       then on_new_price ex (msg_s m) (msg_p m) (msg_E m) st else (None, st))"
  obtain r1 st1 where f: "first = (r1, st1)" by (cases first)
  have l1: "\<exists>t'. trailing_stops st1 symbol = Some t' \<and> later (if msg_s m = symbol then {msg_p m} else {}) t t'"
  proof (cases "previous_prices st (msg_s m) \<noteq> Some (msg_p m)")
    case True
    with f have "on_new_price ex (msg_s m) (msg_p m) (msg_E m) st = (r1, st1)" by (simp add: first_def)
    from on_new_price_later[OF assms(1) this] show ?thesis .
  next
    case False
    with f have "st1 = st" by (simp add: first_def)
    with assms(1) show ?thesis by (simp add: later_refl)
  qed
  have "trailing_stops st' = trailing_stops st1"
  proof (cases r1)
    case (Some e)
    with f assms(2) show ?thesis by (simp add: handler_body_def Let_def first_def[symmetric])
  next
    case None
    obtain b st2 where e: "try_entry ex (msg_s m) (msg_p m) (refresh_target ex (msg_s m) st1) = (b, st2)"
      by (cases "try_entry ex (msg_s m) (msg_p m) (refresh_target ex (msg_s m) st1)")
    have t2: "trailing_stops st2 = trailing_stops st1" using try_entry_frame[OF e] by simp
    show ?thesis
    proof (cases b)
      case True
      with f None e assms(2) have "st' = st2" by (simp add: handler_body_def Let_def first_def[symmetric])
      with t2 show ?thesis by simp
    next
      case False
      with f None e assms(2) have "check_liquidation (msg_s m) (msg_p m) st2 = (r, st')"
        by (simp add: handler_body_def Let_def first_def[symmetric])
      from check_liquidation_frame[OF this] t2 show ?thesis by simp
    qed
  qed
  with l1 show ?thesis by simp
qed

lemma handle_socket_message_later:
  assumes "trailing_stops st symbol = Some t"
  shows "\<exists>t'. trailing_stops (handle_socket_message ex m st) symbol = Some t'
            \<and> later (if msg_s m = symbol then {msg_p m} else {}) t t'"
proof (cases "msg_e m = ''aggTrade''")
  case False
  with assms show ?thesis by (simp add: handle_socket_message_def later_refl)
next
  case True
  obtain r st' where b: "handler_body ex m st = (r, st')" by (cases "handler_body ex m st")
  from handler_body_later[OF assms b] True b show ?thesis
    by (cases r) (simp_all add: handle_socket_message_def)
qed


lemmas handler_defs = handle_socket_message_def handler_body_def on_new_price_def update_price_data_def
  update_volatility_def update_trailing_stop_def check_price_alerts_def check_partial_close_def
  pnl_percent_of_def refresh_target_def determine_target_price_def try_entry_def check_liquidation_def
  calculate_liquidation_price_def PARTIAL_CLOSE_LEVELS_def LEVERAGE_def emit_def
  update_stop_loss_order_def replace_stop_order_def partial_close_position_def

lemmas open_position_defs = open_position_def check_margin_usage_def set_leverage_def
  check_entry_conditions_def spread_percent_def enter_def place_orders_def round_price_def
  py_round_def round_half_even_def stop_loss_price_of_def take_profit_price_of_def
  entry_quantity_def calculate_position_size_def validate_position_size_def py_min_def py_max_def
  num_lt_def np_sub_def emit_def
  MAX_POSITIONS_def MIN_VOLUME_USD_def MAX_SPREAD_PERCENT_def RISK_PER_TRADE_def LEVERAGE_def

section \<open>Position sizing\<close>



section \<open>Price feed reconnection\<close>

text \<open>
  Starting from \<open>start_symbol_ticker_socket\<close>, the message that the bound was exceeded is
  never sent: every connection attempt first resets the counter, so \<open>reconnect_websocket\<close>
  always finds it at zero.
\<close>

lemma max_attempts_never_sent:
  "(start_symbol_ticker_socket outs f = Some g \<longrightarrow> MaxAttemptsExceededSent \<notin> set (sent f) \<longrightarrow> MaxAttemptsExceededSent \<notin> set (sent g))
 \<and> (reconnect_websocket outs f = Some g \<longrightarrow> reconnect_attempts f = 0 \<longrightarrow> MaxAttemptsExceededSent \<notin> set (sent f) \<longrightarrow> MaxAttemptsExceededSent \<notin> set (sent g))"
proof (induction outs arbitrary: f g rule: length_induct)
  case (1 outs)
  show ?case
  proof (cases outs)
    case Nil
    then show ?thesis by (auto simp: MAX_RECONNECT_ATTEMPTS_def Let_def)
  next
    case (Cons ok rest)
    have IH: "\<And>ys f g. length ys < length outs \<Longrightarrow> start_symbol_ticker_socket ys f = Some g \<Longrightarrow> MaxAttemptsExceededSent \<notin> set (sent f) \<Longrightarrow> MaxAttemptsExceededSent \<notin> set (sent g)"
      "\<And>ys f g. length ys < length outs \<Longrightarrow> reconnect_websocket ys f = Some g \<Longrightarrow> reconnect_attempts f = 0 \<Longrightarrow> MaxAttemptsExceededSent \<notin> set (sent f) \<Longrightarrow> MaxAttemptsExceededSent \<notin> set (sent g)"
      using 1 by blast+
    have r: "reconnect_websocket outs f = Some g \<Longrightarrow> reconnect_attempts f = 0 \<Longrightarrow> MaxAttemptsExceededSent \<notin> set (sent f) \<Longrightarrow> MaxAttemptsExceededSent \<notin> set (sent g)"
      using Cons IH(1)[of rest "f\<lparr>reconnect_attempts := 1, subscribed := False\<rparr>" g]
      by (auto simp: MAX_RECONNECT_ATTEMPTS_def Let_def split: if_splits)
    have s: "start_symbol_ticker_socket outs f = Some g \<Longrightarrow> MaxAttemptsExceededSent \<notin> set (sent f) \<Longrightarrow> MaxAttemptsExceededSent \<notin> set (sent g)"
      using Cons IH(2)[of rest "f\<lparr>reconnect_attempts := 0, connect_calls := connect_calls f + 1, sent := sent f @ [ConnectErrorSent]\<rparr>" g]
      by (auto simp: Let_def simp del: reconnect_websocket.simps split: if_splits)
    from r s show ?thesis by blast
  qed
qed

text \<open>
  Claim C7 (what the code does at the claim's scenario).  With the bound at 5, six
  connection attempts in a row fail, each followed by a restart of the manager that
  works.  The code then makes a seventh attempt; when that one connects the feed is
  subscribed, the counter is 0, seven attempts were made, and the only messages sent are
  the six connection errors: the message for the exceeded bound is not among them.
\<close>

theorem six_failures_then_seventh_attempt:
  "start_symbol_ticker_socket six_failures feed0
     = Some \<lparr>reconnect_attempts = 0, subscribed = True, connect_calls = 7,
             sent = [ConnectErrorSent, ConnectErrorSent, ConnectErrorSent,
                     ConnectErrorSent, ConnectErrorSent, ConnectErrorSent]\<rparr>"
  by (simp add: six_failures_def feed0_def MAX_RECONNECT_ATTEMPTS_def)

section \<open>Trailing stop\<close>

lemma run_later:
  assumes "trailing_stops st symbol = Some t"
  shows "\<exists>t'. trailing_stops (run ticks st) symbol = Some t' \<and> later (tick_prices symbol ticks) t t'"
  using assms
proof (induction ticks arbitrary: st t)
  case Nil
  then show ?case by (simp add: later_refl)
next
  case (Cons a ticks)
  obtain ex m where a: "a = (ex, m)" by (cases a)
  from handle_socket_message_later[OF Cons.prems, of ex m]
  obtain t1 where t1: "trailing_stops (handle_socket_message ex m st) symbol = Some t1"
      and l1: "later (if msg_s m = symbol then {msg_p m} else {}) t t1" by blast
  from Cons.IH[OF t1]
  obtain t2 where t2: "trailing_stops (run ticks (handle_socket_message ex m st)) symbol = Some t2"
      and l2: "later (tick_prices symbol ticks) t1 t2" by blast
  have "(if msg_s m = symbol then {msg_p m} else {}) \<union> tick_prices symbol ticks
          = tick_prices symbol (a # ticks)"
    using a by (auto simp: tick_prices_def)
  with later_trans[OF l1 l2] have "later (tick_prices symbol (a # ticks)) t t2" by simp
  with t2 a show ?case by simp
qed

text \<open>
  Claim C3, as amended.  Once the trailing stop of a symbol exists, then after any
  sequence of ticks (of any symbols, whatever the exchange answers) it still exists, its
  \<open>stop_price\<close> is not lower than before, its distance is the same, and its
  \<open>highest_price\<close> is the old one or the price of one of the symbol's ticks and is not lower
  than before.  If it was in order before (distance not negative, highest price positive,
  stop not above the highest price), the stop is not above the highest price afterwards
  either.  Nothing is said about the current price: the stop stays where it is when the
  price falls below it.
\<close>

theorem trailing_stop_never_lowered:
  assumes "trailing_stops st symbol = Some t"
  shows "\<exists>t'. trailing_stops (run ticks st) symbol = Some t'
            \<and> stop_price t \<le> stop_price t'
            \<and> distance_percent t' = distance_percent t
            \<and> highest_price t \<le> highest_price t'
            \<and> (highest_price t' = highest_price t \<or> highest_price t' \<in> tick_prices symbol ticks)
            \<and> (trailing_ok t \<longrightarrow> stop_price t' \<le> highest_price t')"
proof -
  from run_later[OF assms, of ticks]
  obtain t' where "trailing_stops (run ticks st) symbol = Some t'"
    and "later (tick_prices symbol ticks) t t'" by blast
  then show ?thesis by (auto simp: later_def trailing_ok_def)
qed

text \<open>
  The position of 10 units with its stop at 98; a tick at 100 creates the trailing stop,
  a tick at 110 raises it to 107.8, a tick at 97 leaves it there.
\<close>

theorem trailing_stop_never_lowered_witness:
  "trailing_stops (run [(exchange_down, tick 100 1)] bot_with_btc) ''BTCUSDT''
     = Some \<lparr>highest_price = 100, stop_price = 98, distance_percent = 2\<rparr>
   \<and> trailing_ok \<lparr>highest_price = 100, stop_price = 98, distance_percent = 2\<rparr>
   \<and> (\<exists>t'. trailing_stops (run [(exchange_down, tick 110 2), (exchange_down, tick 97 3)]
                (run [(exchange_down, tick 100 1)] bot_with_btc)) ''BTCUSDT'' = Some t'
          \<and> 98 \<le> stop_price t' \<and> stop_price t' \<le> highest_price t'
          \<and> distance_percent t' = 2)"
proof -
  have init: "trailing_stops (run [(exchange_down, tick 100 1)] bot_with_btc) ''BTCUSDT''
     = Some \<lparr>highest_price = 100, stop_price = 98, distance_percent = 2\<rparr>"
    by (simp add: handler_defs exchange_down_def btc_long_def bot_with_btc_def tick_def Let_def)
  have ok: "trailing_ok \<lparr>highest_price = 100, stop_price = 98, distance_percent = 2\<rparr>"
    by (simp add: trailing_ok_def)
  from trailing_stop_never_lowered[OF init, of "[(exchange_down, tick 110 2), (exchange_down, tick 97 3)]"] ok
  have "\<exists>t'. trailing_stops (run [(exchange_down, tick 110 2), (exchange_down, tick 97 3)]
                (run [(exchange_down, tick 100 1)] bot_with_btc)) ''BTCUSDT'' = Some t'
          \<and> 98 \<le> stop_price t' \<and> stop_price t' \<le> highest_price t'
          \<and> distance_percent t' = 2"
    by auto
  with init ok show ?thesis by blast
qed

text \<open>
  The claim as stated fails: after the tick at 100, a favourable tick at 110 (the stop
  goes to 107.8) and an adverse tick at 105, the stop of the long position is still
  107.8, above the current tick price 105.
\<close>

theorem trailing_stop_above_price_counterexample:
  "map_option stop_price
     (trailing_stops
        (run [(exchange_down, tick 100 1), (exchange_down, tick 110 2), (exchange_down, tick 105 3)]
           bot_with_btc) ''BTCUSDT'')
     = Some (1078 / 10)
   \<and> msg_p (tick 105 3) = 105 \<and> (105::real) < 1078 / 10"
  by (simp add: handler_defs exchange_down_def btc_long_def bot_with_btc_def tick_def Let_def)

section \<open>Price alerts\<close>

lemma check_alert_both: "direction a = ''both'' \<Longrightarrow> check_alert p a = a"
  by (simp add: check_alert_def alert_fires_def)

lemma holds_alert_cong: "price_alerts st' = price_alerts st \<Longrightarrow> holds_alert symbol i a st' = holds_alert symbol i a st"
  by (simp add: holds_alert_def)

lemma add_price_alert_holds:
  "holds_alert symbol i a st \<Longrightarrow> holds_alert symbol i a (add_price_alert s p d m st)"
  by (auto simp: holds_alert_def add_price_alert_def Let_def nth_append)

lemma update_volatility_holds:
  "holds_alert symbol i a st \<Longrightarrow> update_volatility s st = (r, st') \<Longrightarrow> holds_alert symbol i a st'"
  by (auto simp: update_volatility_def Let_def split: option.splits if_splits
      intro!: add_price_alert_holds) (simp_all add: holds_alert_def)

lemma update_price_data_holds:
  "holds_alert symbol i a st \<Longrightarrow> update_price_data s p ts st = (r, st') \<Longrightarrow> holds_alert symbol i a st'"
  unfolding update_price_data_def Let_def
  by (erule update_volatility_holds[rotated]) (simp add: holds_alert_def)

lemma check_price_alerts_holds:
  "direction a = ''both'' \<Longrightarrow> holds_alert symbol i a st \<Longrightarrow> holds_alert symbol i a (check_price_alerts s p st)"
  by (auto simp: holds_alert_def check_price_alerts_def check_alert_both split: option.splits)

lemma on_new_price_holds:
  assumes "direction a = ''both''" and "holds_alert symbol i a st" and "on_new_price ex s p ts st = (r, st')"
  shows "holds_alert symbol i a st'"
proof -
  obtain r1 st1 where u: "update_price_data s p ts (st\<lparr>previous_prices := (previous_prices st)(s \<mapsto> p)\<rparr>) = (r1, st1)"
    by (cases "update_price_data s p ts (st\<lparr>previous_prices := (previous_prices st)(s \<mapsto> p)\<rparr>)")
  have "holds_alert symbol i a (st\<lparr>previous_prices := (previous_prices st)(s \<mapsto> p)\<rparr>)"
    using assms(2) by (simp add: holds_alert_def)
  from update_price_data_holds[OF this u] have h1: "holds_alert symbol i a st1" .
  show ?thesis
  proof (cases r1)
    case (Some e)
    with u assms(3) have "st' = st1" by (simp add: on_new_price_def)
    with h1 show ?thesis by simp
  next
    case None
    obtain r2 st2 where v: "update_trailing_stop ex s p st1 = (r2, st2)"
      by (cases "update_trailing_stop ex s p st1")
    have h2: "holds_alert symbol i a st2"
      using update_trailing_stop_alerts[OF v] h1 by (simp add: holds_alert_def)
    show ?thesis
    proof (cases r2)
      case (Some e)
      with u v None assms(3) have "st' = st2" by (simp add: on_new_price_def)
      with h2 show ?thesis by simp
    next
      case n2: None
      with u v None assms(3) have "check_partial_close s p (check_price_alerts s p st2) = (r, st')"
        by (simp add: on_new_price_def)
      from check_partial_close_state[OF this] check_price_alerts_holds[OF assms(1) h2]
      show ?thesis by simp
    qed
  qed
qed

lemma handler_body_holds:
  assumes "direction a = ''both''" and "holds_alert symbol i a st" and "handler_body ex m st = (r, st')"
  shows "holds_alert symbol i a st'"
proof -
  define first where "first = (if previous_prices st (msg_s m) \<noteq> Some (msg_p m)
       then on_new_price ex (msg_s m) (msg_p m) (msg_E m) st else (None, st))"
  obtain r1 st1 where f: "first = (r1, st1)" by (cases first)
  have h1: "holds_alert symbol i a st1"
  proof (cases "previous_prices st (msg_s m) \<noteq> Some (msg_p m)")
    case True
    with f have "on_new_price ex (msg_s m) (msg_p m) (msg_E m) st = (r1, st1)" by (simp add: first_def)
    from on_new_price_holds[OF assms(1,2) this] show ?thesis .
  next
    case False
    with f have "st1 = st" by (simp add: first_def)
    with assms(2) show ?thesis by simp
  qed
  have "price_alerts st' = price_alerts st1"
  proof (cases r1)
    case (Some e)
    with f assms(3) show ?thesis by (simp add: handler_body_def Let_def first_def[symmetric])
  next
    case None
    obtain b st2 where e: "try_entry ex (msg_s m) (msg_p m) (refresh_target ex (msg_s m) st1) = (b, st2)"
      by (cases "try_entry ex (msg_s m) (msg_p m) (refresh_target ex (msg_s m) st1)")
    have t2: "price_alerts st2 = price_alerts st1" using try_entry_frame[OF e] by simp
    show ?thesis
    proof (cases b)
      case True
      with f None e assms(3) have "st' = st2" by (simp add: handler_body_def Let_def first_def[symmetric])
      with t2 show ?thesis by simp
    next
      case False
      with f None e assms(3) have "check_liquidation (msg_s m) (msg_p m) st2 = (r, st')"
        by (simp add: handler_body_def Let_def first_def[symmetric])
      from check_liquidation_frame[OF this] t2 show ?thesis by simp
    qed
  qed
  with h1 show ?thesis by (simp add: holds_alert_def)
qed

lemma handle_socket_message_holds:
  assumes "direction a = ''both''" and "holds_alert symbol i a st"
  shows "holds_alert symbol i a (handle_socket_message ex m st)"
proof (cases "msg_e m = ''aggTrade''")
  case False
  with assms show ?thesis by (simp add: handle_socket_message_def)
next
  case True
  obtain r st' where b: "handler_body ex m st = (r, st')" by (cases "handler_body ex m st")
  from handler_body_holds[OF assms b] have "holds_alert symbol i a st'" .
  with True b show ?thesis
    by (cases r) (simp_all add: handle_socket_message_def holds_alert_def)
qed

lemma run_holds:
  assumes "direction a = ''both''" and "holds_alert symbol i a st"
  shows "holds_alert symbol i a (run ticks st)"
  using assms(2)
proof (induction ticks arbitrary: st)
  case Nil
  then show ?case by simp
next
  case (Cons t ticks)
  obtain ex m where "t = (ex, m)" by (cases t)
  with Cons handle_socket_message_holds[OF assms(1)] show ?case by simp
qed

text \<open>
  Claim C10.  An untriggered alert of direction \<open>both\<close> (the direction that the volatility
  monitor gives its alerts) is returned unchanged by the test of \<open>check_price_alerts\<close> at
  every price; it is still in its place, unchanged and untriggered, after
  \<open>check_price_alerts\<close> and after any sequence of ticks through the handler.  Alerts are
  only ever appended, so such alerts pile up.
\<close>

theorem both_alert_never_triggered:
  assumes "price_alerts st symbol = Some alerts" and "i < length alerts"
    and "direction (alerts ! i) = ''both''" and "\<not> triggered (alerts ! i)"
  shows "check_alert p (alerts ! i) = alerts ! i
       \<and> (\<exists>alerts'. price_alerts (check_price_alerts symbol p st) symbol = Some alerts'
              \<and> i < length alerts' \<and> alerts' ! i = alerts ! i \<and> \<not> triggered (alerts' ! i))
       \<and> (\<exists>alerts'. price_alerts (run ticks st) symbol = Some alerts'
              \<and> i < length alerts' \<and> alerts' ! i = alerts ! i \<and> \<not> triggered (alerts' ! i))"
proof -
  have h: "holds_alert symbol i (alerts ! i) st"
    using assms(1,2) by (simp add: holds_alert_def)
  have a: "check_alert p (alerts ! i) = alerts ! i"
    using assms(3) by (rule check_alert_both)
  have b: "holds_alert symbol i (alerts ! i) (check_price_alerts symbol p st)"
    using assms(3) h by (rule check_price_alerts_holds)
  have c: "holds_alert symbol i (alerts ! i) (run ticks st)"
    using assms(3) h by (rule run_holds)
  from b obtain as1 where b1: "price_alerts (check_price_alerts symbol p st) symbol = Some as1"
     "i < length as1" "as1 ! i = alerts ! i" unfolding holds_alert_def by blast
  from c obtain as2 where c1: "price_alerts (run ticks st) symbol = Some as2"
     "i < length as2" "as2 ! i = alerts ! i" unfolding holds_alert_def by blast
  from a b1 c1 assms(4) show ?thesis by simp
qed


theorem both_alert_never_triggered_witness:
  "price_alerts bot_with_alert ''BTCUSDT'' = Some [volatility_alert]
   \<and> 0 < length [volatility_alert]
   \<and> direction ([volatility_alert] ! 0) = ''both''
   \<and> \<not> triggered ([volatility_alert] ! 0)
   \<and> check_alert 101 ([volatility_alert] ! 0) = [volatility_alert] ! 0
   \<and> (\<exists>alerts'. price_alerts (run [(exchange_down, tick 101 1), (exchange_down, tick 99 2)] bot_with_alert)
                    ''BTCUSDT'' = Some alerts'
          \<and> 0 < length alerts' \<and> alerts' ! 0 = [volatility_alert] ! 0 \<and> \<not> triggered (alerts' ! 0))"
proof -
  have h: "price_alerts bot_with_alert ''BTCUSDT'' = Some [volatility_alert]"
     "0 < length [volatility_alert]"
     "direction ([volatility_alert] ! 0) = ''both''"
     "\<not> triggered ([volatility_alert] ! 0)"
    by (simp_all add: bot_with_alert_def volatility_alert_def)
  from both_alert_never_triggered[OF h, of 101 "[(exchange_down, tick 101 1), (exchange_down, tick 99 2)]"] h
  show ?thesis by blast
qed

section \<open>Volatility\<close>

lemma sum_list_zeros: "\<forall>x\<in>set xs. x = (0::real) \<Longrightarrow> sum_list xs = 0"
  by (induction xs) auto

lemma mean_zeros: "\<forall>x\<in>set xs. x = 0 \<Longrightarrow> mean xs = 0"
  by (simp add: mean_def sum_list_zeros)

lemma np_std_zeros:
  assumes "\<forall>x\<in>set xs. x = 0"
  shows "np_std xs = 0"
proof -
  have m: "mean xs = 0" using assms by (rule mean_zeros)
  have "\<forall>y\<in>set (map (\<lambda>x. \<bar>x - mean xs\<bar> ^ 2) xs). y = 0"
    using assms m by auto
  then have "mean (map (\<lambda>x. \<bar>x - mean xs\<bar> ^ 2) xs) = 0" by (rule mean_zeros)
  then show ?thesis by (simp add: np_std_def)
qed

lemma np_diff_constant:
  assumes "\<forall>x\<in>set xs. x = c"
  shows "\<forall>d\<in>set (np_diff xs). d = 0"
proof
  fix d assume "d \<in> set (np_diff xs)"
  then obtain a b where ab: "(a, b) \<in> set (zip xs (tl xs))" and d: "d = b - a"
    by (auto simp: np_diff_def)
  from ab have a: "a \<in> set xs" by (rule set_zip_leftD)
  from ab have "b \<in> set (tl xs)" by (rule set_zip_rightD)
  then have b: "b \<in> set xs" by (cases xs) simp_all
  from a assms have "a = c" by blast
  moreover from b assms have "b = c" by blast
  ultimately show "d = 0" using d by simp
qed

lemma volatility_of_constant:
  assumes "0 < c" and "\<forall>q\<in>set prices. q = c"
  shows "volatility_of prices = Fin 0"
proof -
  have pos: "list_all (\<lambda>p. 0 < p) prices" using assms by (auto simp: list_all_iff)
  have "\<forall>x\<in>set (map ln prices). x = ln c" using assms(2) by auto
  then have "\<forall>d\<in>set (np_diff (map ln prices)). d = 0" by (rule np_diff_constant)
  then have "np_std (np_diff (map ln prices)) = 0" by (rule np_std_zeros)
  with pos show ?thesis by (simp add: volatility_of_def)
qed

lemma recorded_last: "recorded symbol p ts st \<noteq> [] \<and> last (recorded symbol p ts st) = \<lparr>price = p, timestamp = ts\<rparr>"
  by (auto simp: recorded_def Let_def)

lemma update_price_data_eq:
  "update_price_data symbol p ts st =
     (let hist = recorded symbol p ts st;
          st1 = st\<lparr>price_history := (price_history st)(symbol \<mapsto> hist)\<rparr>
      in if length hist < 20 then (None, st1)
         else let prices = map price (drop (length hist - 20) hist);
                  vol = volatility_of prices;
                  st2 = st1\<lparr>volatility := (volatility st)(symbol \<mapsto> vol)\<rparr>
              in if np_lt (Fin 100) vol
                 then (None, add_price_alert symbol (last prices) ''both'' (HighVolatility vol) st2)
                 else (None, st2))"
  by (simp add: update_price_data_def update_volatility_def recorded_def Let_def)

lemma last_prices:
  assumes "20 \<le> length hist"
  shows "last (map price (drop (length hist - 20) hist)) = price (last hist)"
proof -
  have "drop (length hist - 20) hist \<noteq> []" using assms by auto
  then show ?thesis by (simp add: last_map last_drop)
qed

lemma length_np_diff: "length (np_diff xs) = length xs - 1"
  by (simp add: np_diff_def)

lemma np_diff_nth:
  assumes "Suc i < length xs"
  shows "np_diff xs ! i = xs ! Suc i - xs ! i"
  using assms by (simp add: np_diff_def nth_tl)

lemma mean_sum: "mean xs = (\<Sum>i<length xs. xs ! i) / real (length xs)"
  by (simp add: mean_def sum_list_sum_nth atLeast0LessThan)

lemma np_std_sum:
  "np_std xs = sqrt ((\<Sum>i<length xs. (xs ! i - (\<Sum>j<length xs. xs ! j) / real (length xs)) ^ 2)
                      / real (length xs))"
  by (simp add: np_std_def mean_sum)

lemma volatility_of_formula:
  assumes "length prices = 20" and "list_all (\<lambda>q. 0 < q) prices"
  shows "volatility_of prices =
     Fin (sqrt ((\<Sum>i<19. ((ln (prices ! Suc i) - ln (prices ! i))
                           - (\<Sum>j<19. ln (prices ! Suc j) - ln (prices ! j)) / 19) ^ 2) / 19)
          * sqrt 20 * 100)"
proof -
  let ?r = "np_diff (map ln prices)"
  have len: "length ?r = 19" using assms(1) by (simp add: length_np_diff)
  have nth: "\<And>i. i < 19 \<Longrightarrow> ?r ! i = ln (prices ! Suc i) - ln (prices ! i)"
    using assms(1) by (simp add: np_diff_nth)
  have "np_std ?r = sqrt ((\<Sum>i<19. (?r ! i - (\<Sum>j<19. ?r ! j) / 19) ^ 2) / 19)"
    using len by (simp add: np_std_sum)
  also have "\<dots> = sqrt ((\<Sum>i<19. ((ln (prices ! Suc i) - ln (prices ! i))
                           - (\<Sum>j<19. ln (prices ! Suc j) - ln (prices ! j)) / 19) ^ 2) / 19)"
    using nth by simp
  finally show ?thesis using assms(2) by (simp add: volatility_of_def)
qed

lemma ln3_ge_1: "1 \<le> ln (3::real)"
  using exp_le by (simp add: ln_ge_iff)

lemma alt_vol: "volatility_of alternating = Fin (ln 3 * sqrt (360 / 361) * sqrt 20 * 100)"
proof -
  have d: "np_diff (map ln alternating) =
      [ln 3, - ln 3, ln 3, - ln 3, ln 3, - ln 3, ln 3, - ln 3, ln 3, - ln 3,
       ln 3, - ln 3, ln 3, - ln 3, ln 3, - ln 3, ln 3, - ln 3, ln 3]"
    by (simp add: np_diff_def alternating_def)
  have m: "mean (np_diff (map ln alternating)) = ln 3 / 19"
    unfolding d by (simp add: mean_def)
  have v: "mean (map (\<lambda>x. \<bar>x - ln 3 / 19\<bar> ^ 2) (np_diff (map ln alternating))) = (ln 3)^2 * (360 / 361)"
    unfolding d by (simp add: mean_def power2_eq_square field_simps)
  have "np_std (np_diff (map ln alternating)) = sqrt ((ln 3)^2 * (360 / 361))"
    by (simp only: np_std_def m v)
  also have "\<dots> = ln 3 * sqrt (360 / 361)"
  proof -
    have "sqrt ((ln 3)^2) = ln (3::real)" using ln3_ge_1 by simp
    then show ?thesis by (simp only: real_sqrt_mult)
  qed
  finally show ?thesis by (simp add: volatility_of_def alternating_def)
qed

lemma alt_vol_big: "100 < ln 3 * sqrt (360 / 361) * sqrt 20 * 100"
proof -
  have "sqrt (360 / 361) * sqrt 20 = sqrt (7200 / 361)"
    by (simp add: real_sqrt_mult[symmetric])
  moreover have "1 < sqrt (7200 / 361 :: real)"
  proof -
    have "sqrt 1 < sqrt (7200 / 361 :: real)" by (rule real_sqrt_less_mono) simp
    then show ?thesis by simp
  qed
  ultimately have "1 < sqrt (360 / 361) * sqrt 20" by simp
  with ln3_ge_1 have "1 * 1 < ln 3 * (sqrt (360 / 361) * sqrt 20)"
    by (intro mult_le_less_imp_less) simp_all
  then show ?thesis by (simp add: mult.assoc)
qed

text \<open>
  Claim C9.  \<open>update_price_data\<close> never raises and leaves the new sample last in the
  symbol's history.  With fewer than 20 samples in the history it touches neither the
  volatility nor the alerts.  With 20 or more, the symbol's volatility is set from the
  prices \<open>p\<^bsub>0\<^esub>, ..., p\<^bsub>19\<^esub>\<close> of the last 20 samples: when they are positive, with the 19
  log-returns \<open>r\<^bsub>i\<^esub> = ln p\<^bsub>i+1\<^esub> - ln p\<^bsub>i\<^esub>\<close> and their mean \<open>m\<close>, it is the square root of the mean
  of the \<open>(r\<^bsub>i\<^esub> - m)\<^sup>2\<close> (the standard deviation that divides by 19, the number of returns),
  times \<open>sqrt 20\<close>, times 100; it is 0 when the 20 prices are one and the same positive
  price \<open>c\<close>; and an alert (direction \<open>both\<close>, at the sample's price) is appended exactly
  when the volatility is greater than 100, the alerts staying as they were otherwise.
\<close>

theorem volatility_after_sample:
  assumes "update_price_data symbol p ts st = (r, st')"
  shows "r = None
     \<and> (\<exists>hist. price_history st' symbol = Some hist \<and> hist \<noteq> []
           \<and> last hist = \<lparr>price = p, timestamp = ts\<rparr>
           \<and> (if length hist < 20
               then volatility st' = volatility st \<and> price_alerts st' = price_alerts st
               else (let prices = map price (drop (length hist - 20) hist);
                         vol = volatility_of prices
                     in length prices = 20
                        \<and> volatility st' symbol = Some vol
                        \<and> (list_all (\<lambda>q. 0 < q) prices \<longrightarrow>
                              vol = Fin (sqrt ((\<Sum>i<19. ((ln (prices ! Suc i) - ln (prices ! i))
                                   - (\<Sum>j<19. ln (prices ! Suc j) - ln (prices ! j)) / 19) ^ 2) / 19)
                                         * sqrt 20 * 100))
                        \<and> (0 < c \<and> (\<forall>q\<in>set prices. q = c) \<longrightarrow> vol = Fin 0)
                        \<and> (if np_lt (Fin 100) vol
                            then price_alerts st' =
                                   price_alerts (add_price_alert symbol p ''both'' (HighVolatility vol) st)
                            else price_alerts st' = price_alerts st))))"
proof -
  define hist where "hist = recorded symbol p ts st"
  have hl: "hist \<noteq> []" "last hist = \<lparr>price = p, timestamp = ts\<rparr>"
    using recorded_last[of symbol p ts st] by (simp_all add: hist_def)
  show ?thesis
  proof (cases "length hist < 20")
    case True
    with assms have "r = None" "st' = st\<lparr>price_history := (price_history st)(symbol \<mapsto> hist)\<rparr>"
      by (simp_all add: update_price_data_eq hist_def[symmetric] Let_def)
    with True hl show ?thesis by simp
  next
    case False
    let ?prices = "map price (drop (length hist - 20) hist)"
    let ?vol = "volatility_of ?prices"
    let ?st2 = "st\<lparr>price_history := (price_history st)(symbol \<mapsto> hist), volatility := (volatility st)(symbol \<mapsto> ?vol)\<rparr>"
    have len: "length ?prices = 20" using False by simp
    have lp: "last ?prices = p" using False hl last_prices[of hist] by simp
    have f1: "list_all (\<lambda>q. 0 < q) ?prices \<longrightarrow>
               ?vol = Fin (sqrt ((\<Sum>i<19. ((ln (?prices ! Suc i) - ln (?prices ! i))
                                   - (\<Sum>j<19. ln (?prices ! Suc j) - ln (?prices ! j)) / 19) ^ 2) / 19)
                          * sqrt 20 * 100)"
      using volatility_of_formula[OF len] by blast
    have f2: "0 < c \<and> (\<forall>q\<in>set ?prices. q = c) \<longrightarrow> ?vol = Fin 0"
      using volatility_of_constant[of c ?prices] by blast
    from assms False have res: "(r, st') =
        (if np_lt (Fin 100) ?vol
         then (None, add_price_alert symbol (last ?prices) ''both'' (HighVolatility ?vol) ?st2)
         else (None, ?st2))"
      by (simp add: update_price_data_eq hist_def[symmetric] Let_def)
    have r: "r = None" using res by (simp split: if_splits)
    have ph: "price_history st' symbol = Some hist"
      using res by (auto simp: add_price_alert_def Let_def split: if_splits)
    have v: "volatility st' symbol = Some ?vol"
      using res by (auto simp: add_price_alert_def Let_def split: if_splits)
    have al: "if np_lt (Fin 100) ?vol
              then price_alerts st' = price_alerts (add_price_alert symbol p ''both'' (HighVolatility ?vol) st)
              else price_alerts st' = price_alerts st"
      using res unfolding lp by (auto simp: add_price_alert_def Let_def split: if_splits)
    have body: "(if length hist < 20
               then volatility st' = volatility st \<and> price_alerts st' = price_alerts st
               else (let prices = map price (drop (length hist - 20) hist);
                         vol = volatility_of prices
                     in length prices = 20
                        \<and> volatility st' symbol = Some vol
                        \<and> (list_all (\<lambda>q. 0 < q) prices \<longrightarrow>
                              vol = Fin (sqrt ((\<Sum>i<19. ((ln (prices ! Suc i) - ln (prices ! i))
                                   - (\<Sum>j<19. ln (prices ! Suc j) - ln (prices ! j)) / 19) ^ 2) / 19)
                                         * sqrt 20 * 100))
                        \<and> (0 < c \<and> (\<forall>q\<in>set prices. q = c) \<longrightarrow> vol = Fin 0)
                        \<and> (if np_lt (Fin 100) vol
                            then price_alerts st' =
                                   price_alerts (add_price_alert symbol p ''both'' (HighVolatility vol) st)
                            else price_alerts st' = price_alerts st)))"
      unfolding Let_def using False len v f1 f2 al by presburger
    from r ph hl body show ?thesis by blast
  qed
qed


text \<open>A twentieth sample at the price 100 after nineteen at 100: volatility 0 and no alert.\<close>

lemma constant_history_volatility:
  "update_price_data ''BTCUSDT'' 100 20 bot_with_history =
     (None, bot_with_history
        \<lparr>price_history := [''BTCUSDT'' \<mapsto> replicate 19 \<lparr>price = 100, timestamp = 0\<rparr> @ [\<lparr>price = 100, timestamp = 20\<rparr>]],
         volatility := [''BTCUSDT'' \<mapsto> Fin 0]\<rparr>)
   \<and> price_alerts (snd (update_price_data ''BTCUSDT'' 100 20 bot_with_history)) = price_alerts bot_with_history"
proof -
  let ?hist = "replicate 19 \<lparr>price = 100, timestamp = 0\<rparr> @ [\<lparr>price = 100, timestamp = 20\<rparr>]"
  have v: "volatility_of (map price ?hist) = Fin 0"
    by (rule volatility_of_constant[of 100]) auto
  have e: "update_price_data ''BTCUSDT'' 100 20 bot_with_history =
     (None, bot_with_history
        \<lparr>price_history := [''BTCUSDT'' \<mapsto> ?hist], volatility := [''BTCUSDT'' \<mapsto> Fin 0]\<rparr>)"
    using v by (simp add: update_price_data_def update_volatility_def bot_with_history_def bot_with_btc_def Let_def)
  from e show ?thesis
    by (simp add: bot_with_history_def bot_with_btc_def)
qed


text \<open>
  A twentieth sample at the price 3 after nineteen going back and forth between 1 and
  3: the volatility is \<open>ln 3 * sqrt (360 / 361) * sqrt 20 * 100\<close>, which is more than 100, and
  the alert is appended.
\<close>

theorem volatility_after_sample_witness:
  "fst (update_price_data ''BTCUSDT'' 3 20 bot_alternating) = None
   \<and> volatility (snd (update_price_data ''BTCUSDT'' 3 20 bot_alternating)) ''BTCUSDT''
        = Some (Fin (ln 3 * sqrt (360 / 361) * sqrt 20 * 100))
   \<and> 100 < ln 3 * sqrt (360 / 361) * sqrt 20 * 100
   \<and> price_alerts (snd (update_price_data ''BTCUSDT'' 3 20 bot_alternating)) ''BTCUSDT''
        = Some [\<lparr>alert_price = 3, direction = ''both'',
                  message = HighVolatility (Fin (ln 3 * sqrt (360 / 361) * sqrt 20 * 100)),
                  triggered = False\<rparr>]"
proof -
  let ?V = "ln 3 * sqrt (360 / 361) * sqrt 20 * 100"
  let ?hist = "map (\<lambda>q. \<lparr>price = q, timestamp = 0\<rparr>) (butlast alternating) @ [\<lparr>price = 3, timestamp = 20\<rparr>]"
  have big: "np_lt (Fin 100) (Fin ?V)" using alt_vol_big by simp
  have e: "update_price_data ''BTCUSDT'' 3 20 bot_alternating =
     (None, add_price_alert ''BTCUSDT'' 3 ''both'' (HighVolatility (Fin ?V))
        (bot_alternating\<lparr>price_history := [''BTCUSDT'' \<mapsto> ?hist],
                          volatility := [''BTCUSDT'' \<mapsto> Fin ?V]\<rparr>))"
    using big by (simp add: update_price_data_def update_volatility_def bot_alternating_def
          bot_with_btc_def Let_def alternating_def alt_vol[unfolded alternating_def]
          del: np_lt.simps)
  from volatility_after_sample[OF e, of 1] e alt_vol_big show ?thesis
    by (simp add: add_price_alert_def bot_alternating_def bot_with_btc_def)
qed

section \<open>Dynamic stops\<close>

lemma length_true_range: "length (true_range prev df) = length df"
  by (induction prev df rule: true_range.induct) simp_all

lemma atr14_full:
  assumes "14 \<le> length df"
  shows "atr14 df = Fin (sum_list (drop (length df - 14) (true_range None df)) / 14)"
  using assms by (simp add: atr14_def rolling_mean_last_def length_true_range)

lemma clamp_lift:
  "lift (py_max (py_min (NpNum (Fin x)) (PyNum hi)) (PyNum lo)) = Fin (max lo (min hi x))"
  by (simp add: py_max_def py_min_def num_lt_def max_def min_def)

lemma clamp_times:
  "lift (num_mul (py_max (py_min (NpNum (Fin x)) (PyNum hi)) (PyNum lo)) (PyNum k)) = Fin (max lo (min hi x) * k)"
  by (simp add: py_max_def py_min_def num_lt_def max_def min_def)

lemma calculate_dynamic_stops_finite:
  assumes "df \<noteq> []" and "atr14 df = Fin atr" and "close (last df) \<noteq> 0"
  shows "lift (fst (calculate_dynamic_stops df))
           = Fin (max MIN_STOP_LOSS (min MAX_STOP_LOSS (atr * ATR_MULTIPLIER / close (last df) * 100)))"
    and "lift (snd (calculate_dynamic_stops df))
           = Fin (max MIN_STOP_LOSS (min MAX_STOP_LOSS (atr * ATR_MULTIPLIER / close (last df) * 100)) * 1.5)"
  using assms by (simp_all add: calculate_dynamic_stops_def Let_def clamp_lift clamp_times)

text \<open>
  On a frame of at least 14 rows whose last close is not zero, the average true range
  is the mean of the last 14 true ranges, the stop-loss percent is that average times
  \<open>ATR_MULTIPLIER\<close>, divided by the last close, times 100, clamped to \<open>MIN_STOP_LOSS\<close> and
  \<open>MAX_STOP_LOSS\<close> (so it lies between them), and the take-profit percent is 1.5 times
  the stop-loss percent.  On the empty frame, where the computation raises, the two
  static percentages are returned.
\<close>

lemma dynamic_stops_full_window:
  assumes "14 \<le> length df" and "close (last df) \<noteq> 0"
  shows "(\<exists>atr s. atr14 df = Fin atr
            \<and> atr = sum_list (drop (length df - 14) (true_range None df)) / 14
            \<and> s = max MIN_STOP_LOSS (min MAX_STOP_LOSS (atr * ATR_MULTIPLIER / close (last df) * 100))
            \<and> lift (fst (calculate_dynamic_stops df)) = Fin s
            \<and> lift (snd (calculate_dynamic_stops df)) = Fin (s * 1.5)
            \<and> MIN_STOP_LOSS \<le> s \<and> s \<le> MAX_STOP_LOSS)
       \<and> calculate_dynamic_stops [] = (PyNum STOP_LOSS_PERCENT, PyNum TAKE_PROFIT_PERCENT)"
proof -
  let ?atr = "sum_list (drop (length df - 14) (true_range None df)) / 14"
  let ?s = "max MIN_STOP_LOSS (min MAX_STOP_LOSS (?atr * ATR_MULTIPLIER / close (last df) * 100))"
  have ne: "df \<noteq> []" using assms(1) by auto
  have a: "atr14 df = Fin ?atr" using assms(1) by (rule atr14_full)
  have f: "lift (fst (calculate_dynamic_stops df)) = Fin ?s"
    using ne a assms(2) by (rule calculate_dynamic_stops_finite(1))
  have g: "lift (snd (calculate_dynamic_stops df)) = Fin (?s * 1.5)"
    using ne a assms(2) by (rule calculate_dynamic_stops_finite(2))
  have b: "MIN_STOP_LOSS \<le> ?s" "?s \<le> MAX_STOP_LOSS"
    by (simp_all add: MIN_STOP_LOSS_def MAX_STOP_LOSS_def)
  have e: "calculate_dynamic_stops [] = (PyNum STOP_LOSS_PERCENT, PyNum TAKE_PROFIT_PERCENT)"
    by (simp add: calculate_dynamic_stops_def)
  from a f g b e show ?thesis by blast
qed

lemma flat_eval: "calculate_dynamic_stops flat_bars = (NpNum (Fin 4), NpNum (Fin 6))"
  by (simp add: calculate_dynamic_stops_def flat_bars_def flat_bar_def atr14_def rolling_mean_last_def
      Let_def py_max_def py_min_def num_lt_def ATR_MULTIPLIER_def MAX_STOP_LOSS_def MIN_STOP_LOSS_def)

text \<open>
  Claim C5 (what the code does on a frame of one row).  The rolling mean over 14 rows is
  NaN; nothing raises, the builtins \<open>min\<close> and \<open>max\<close> of the clamp return the NaN, and the
  result is \<open>(nan, nan)\<close>: the stop-loss percent is neither at least \<open>MIN_STOP_LOSS\<close> nor at
  most \<open>MAX_STOP_LOSS\<close>, and it is not the static percentage either.  \<open>open_position\<close> goes
  on with it: on an exchange that answers every call, it sends the entry order with the
  quantity NaN, and only the rounding of the stop price raises (\<open>ValueError\<close>), after the
  entry.
\<close>

theorem dynamic_stops_nan_on_short_frame:
  "calculate_dynamic_stops [flat_bar] = (NpNum NaN, NpNum NaN)
   \<and> \<not> np_le (Fin MIN_STOP_LOSS) (lift (fst (calculate_dynamic_stops [flat_bar])))
   \<and> \<not> np_le (lift (fst (calculate_dynamic_stops [flat_bar]))) (Fin MAX_STOP_LOSS)
   \<and> calculate_dynamic_stops [flat_bar] \<noteq> (PyNum STOP_LOSS_PERCENT, PyNum TAKE_PROFIT_PERCENT)
   \<and> open_position exchange_one_bar ''ETHUSDT'' ''long'' 100 bot_empty
       = bot_empty\<lparr>journal :=
           [Called Futures_account True,
            Called (Futures_change_leverage ''ETHUSDT'') True,
            Called (Futures_ticker ''ETHUSDT'') True,
            Called (Futures_order_book ''ETHUSDT'') True,
            Called Futures_account True,
            Called (Futures_create_order
                     \<lparr>order_symbol = ''ETHUSDT'', order_side = ''BUY'', order_type = ''MARKET'',
                      stopPrice = None, order_quantity = NpNum NaN\<rparr>) True,
            ErrorLogged In_open_position ValueError]\<rparr>"
proof -
  have d: "calculate_dynamic_stops [flat_bar] = (NpNum NaN, NpNum NaN)"
    by (simp add: calculate_dynamic_stops_def flat_bar_def atr14_def rolling_mean_last_def
        Let_def py_max_def py_min_def num_lt_def)
  have o: "open_position exchange_one_bar ''ETHUSDT'' ''long'' 100 bot_empty
       = bot_empty\<lparr>journal :=
           [Called Futures_account True,
            Called (Futures_change_leverage ''ETHUSDT'') True,
            Called (Futures_ticker ''ETHUSDT'') True,
            Called (Futures_order_book ''ETHUSDT'') True,
            Called Futures_account True,
            Called (Futures_create_order
                     \<lparr>order_symbol = ''ETHUSDT'', order_side = ''BUY'', order_type = ''MARKET'',
                      stopPrice = None, order_quantity = NpNum NaN\<rparr>) True,
            ErrorLogged In_open_position ValueError]\<rparr>"
    by (simp add: open_position_defs d exchange_one_bar_def exchange_up_def bot_empty_def Let_def)
  from d o show ?thesis by simp
qed


section \<open>Partial-close ladder\<close>

lemma quiet_refl [simp]: "quiet st st"
  by (simp add: quiet_def)

lemma quiet_trans: "quiet a b \<Longrightarrow> quiet b c \<Longrightarrow> quiet a c"
  by (auto simp: quiet_def)

lemma quiet_emit: "list_all stop_only evs \<Longrightarrow> quiet st (emit evs st)"
  by (auto simp: quiet_def)

lemma quiet_journal: "journal st' = journal st \<Longrightarrow> quiet st st'"
  by (simp add: quiet_def)

lemma cancel_stop_orders_quiet:
  "cancel_stop_orders ex symbol os st = (r, st') \<Longrightarrow>
     quiet st st' \<and> open_positions st' = open_positions st \<and> TARGET_PRICES st' = TARGET_PRICES st"
proof (induction os arbitrary: st)
  case Nil
  then show ?case by simp
next
  case (Cons ord os)
  show ?case
  proof (cases "open_type ord = ''STOP_MARKET'' \<and> futures_cancel_order ex symbol (orderId ord)")
    case True
    let ?st1 = "emit [Called (Futures_cancel_order symbol (orderId ord)) True] st"
    from True Cons.prems have "cancel_stop_orders ex symbol os ?st1 = (r, st')" by simp
    from Cons.IH[OF this] have "quiet ?st1 st'" "open_positions st' = open_positions st"
        "TARGET_PRICES st' = TARGET_PRICES st" by simp_all
    moreover have "quiet st ?st1" by (rule quiet_emit) simp
    ultimately show ?thesis by (blast intro: quiet_trans)
  next
    case False
    show ?thesis
    proof (cases "open_type ord = ''STOP_MARKET''")
      case True
      with False Cons.prems have "st' = emit [Called (Futures_cancel_order symbol (orderId ord)) False] st"
        by auto
      then show ?thesis by (simp add: quiet_emit)
    next
      case nf: False
      with Cons.prems have "cancel_stop_orders ex symbol os st = (r, st')" by simp
      from Cons.IH[OF this] show ?thesis .
    qed
  qed
qed

lemma replace_stop_order_quiet:
  assumes "replace_stop_order ex symbol p st = (r, st')"
  shows "quiet st st' \<and> TARGET_PRICES st' = TARGET_PRICES st
       \<and> (open_positions st' = open_positions st
           \<or> (\<exists>pos. map_of (open_positions st) symbol = Some pos
                \<and> open_positions st' = AList.update symbol (pos\<lparr>stop_loss := p\<rparr>) (open_positions st)))"
proof (cases "map_of (open_positions st) symbol")
  case None
  with assms show ?thesis by (simp add: replace_stop_order_def)
next
  case (Some pos)
  show ?thesis
  proof (cases "futures_get_open_orders ex symbol")
    case (Inl e)
    with Some assms show ?thesis by (auto simp: replace_stop_order_def quiet_emit)
  next
    case (Inr os)
    let ?st0 = "emit [Called (Futures_get_open_orders symbol) True] st"
    obtain r1 st1 where c: "cancel_stop_orders ex symbol os ?st0 = (r1, st1)"
      by (cases "cancel_stop_orders ex symbol os ?st0")
    from cancel_stop_orders_quiet[OF c]
    have q1: "quiet ?st0 st1" and o1: "open_positions st1 = open_positions st"
      and t1: "TARGET_PRICES st1 = TARGET_PRICES st" by simp_all
    have q0: "quiet st st1" using q1 by (blast intro: quiet_trans quiet_emit[of "[Called (Futures_get_open_orders symbol) True]" st, simplified])
    show ?thesis
    proof (cases r1)
      case (Some e)
      with \<open>map_of (open_positions st) symbol = Some pos\<close> Inr c assms have "st' = st1"
        by (simp add: replace_stop_order_def)
      with q0 o1 t1 show ?thesis by simp
    next
      case None
      let ?ord = "\<lparr>order_symbol = symbol, order_side = (if side pos = ''long'' then ''SELL'' else ''BUY''),
                   order_type = ''STOP_MARKET'', stopPrice = Some p, order_quantity = quantity pos\<rparr>"
      show ?thesis
      proof (cases "futures_create_order ex ?ord")
        case True
        with \<open>map_of (open_positions st) symbol = Some pos\<close> Inr c None assms
        have s: "st' = (emit [Called (Futures_create_order ?ord) True] st1)
                    \<lparr>open_positions := AList.update symbol (pos\<lparr>stop_loss := p\<rparr>) (open_positions st1)\<rparr>"
          by (simp add: replace_stop_order_def Let_def)
        have "quiet st1 st'" unfolding s by (auto simp: quiet_def)
        with q0 have "quiet st st'" by (rule quiet_trans)
        moreover have "TARGET_PRICES st' = TARGET_PRICES st" using s t1 by simp
        moreover have "open_positions st' = AList.update symbol (pos\<lparr>stop_loss := p\<rparr>) (open_positions st)"
          using s o1 by simp
        ultimately show ?thesis using \<open>map_of (open_positions st) symbol = Some pos\<close> by blast
      next
        case False
        with \<open>map_of (open_positions st) symbol = Some pos\<close> Inr c None assms
        have s: "st' = emit [Called (Futures_create_order ?ord) False] st1"
          by (simp add: replace_stop_order_def Let_def)
        have "quiet st1 st'" unfolding s by (rule quiet_emit) simp
        with q0 have "quiet st st'" by (rule quiet_trans)
        with s o1 t1 show ?thesis by simp
      qed
    qed
  qed
qed

lemma map_of_update_same_holding:
  assumes "map_of al k = Some pos" and "map_of al s = Some q"
  shows "\<exists>q'. map_of (AList.update k (pos\<lparr>stop_loss := p\<rparr>) al) s = Some q' \<and> same_holding q q'"
  using assms by (cases "s = k") (auto simp: update_conv' same_holding_def)

lemma update_stop_loss_order_quiet:
  "quiet st (update_stop_loss_order ex symbol p st)"
  "TARGET_PRICES (update_stop_loss_order ex symbol p st) = TARGET_PRICES st"
  "map_of (open_positions st) s = Some q \<Longrightarrow>
     \<exists>q'. map_of (open_positions (update_stop_loss_order ex symbol p st)) s = Some q' \<and> same_holding q q'"
proof -
  obtain r st' where e: "replace_stop_order ex symbol p st = (r, st')"
    by (cases "replace_stop_order ex symbol p st")
  note f = replace_stop_order_quiet[OF e]
  have u: "update_stop_loss_order ex symbol p st
        = (case r of None \<Rightarrow> st' | Some err \<Rightarrow> emit [ErrorLogged In_update_stop_loss_order err] st')"
    using e by (simp add: update_stop_loss_order_def)
  have "quiet st' (update_stop_loss_order ex symbol p st)"
    unfolding u by (cases r) (simp_all add: quiet_emit)
  with f show "quiet st (update_stop_loss_order ex symbol p st)" by (blast intro: quiet_trans)
  show "TARGET_PRICES (update_stop_loss_order ex symbol p st) = TARGET_PRICES st"
    unfolding u using f by (cases r) simp_all
  assume q: "map_of (open_positions st) s = Some q"
  have o: "open_positions (update_stop_loss_order ex symbol p st) = open_positions st'"
    unfolding u by (cases r) simp_all
  from f have "open_positions st' = open_positions st
           \<or> (\<exists>pos. map_of (open_positions st) symbol = Some pos
                \<and> open_positions st' = AList.update symbol (pos\<lparr>stop_loss := p\<rparr>) (open_positions st))" by simp
  then show "\<exists>q'. map_of (open_positions (update_stop_loss_order ex symbol p st)) s = Some q' \<and> same_holding q q'"
  proof
    assume "open_positions st' = open_positions st"
    with o q show ?thesis by (simp add: same_holding_def)
  next
    assume "\<exists>pos. map_of (open_positions st) symbol = Some pos
                \<and> open_positions st' = AList.update symbol (pos\<lparr>stop_loss := p\<rparr>) (open_positions st)"
    then obtain pos where "map_of (open_positions st) symbol = Some pos"
      "open_positions st' = AList.update symbol (pos\<lparr>stop_loss := p\<rparr>) (open_positions st)" by blast
    with o map_of_update_same_holding[OF this(1) q, of p] show ?thesis by simp
  qed
qed


lemma same_holding_refl [simp]: "same_holding q q"
  by (simp add: same_holding_def)

lemma update_trailing_stop_quiet:
  assumes "update_trailing_stop ex symbol p st = (r, st')"
    and "p \<noteq> 0 \<or> trailing_stops st symbol \<noteq> None"
    and "map_of (open_positions st) s = Some q"
  shows "r = None \<and> quiet st st' \<and> TARGET_PRICES st' = TARGET_PRICES st
       \<and> (\<exists>q'. map_of (open_positions st') s = Some q' \<and> same_holding q q')"
proof (cases "map_of (open_positions st) symbol")
  case None
  with assms show ?thesis by (auto simp: update_trailing_stop_def)
next
  case (Some pos)
  show ?thesis
  proof (cases "trailing_stops st symbol")
    case None
    with Some assms show ?thesis by (auto simp: update_trailing_stop_def Let_def quiet_journal)
  next
    case tr: (Some tr)
    let ?new = "p * (1 - distance_percent tr / 100)"
    let ?st1 = "st\<lparr>trailing_stops := (trailing_stops st)(symbol \<mapsto> tr\<lparr>highest_price := p, stop_price := ?new\<rparr>)\<rparr>"
    show ?thesis
    proof (cases "side pos = ''long'' \<and> p > highest_price tr \<and> ?new > stop_price tr")
      case True
      with Some tr assms(1) have e: "r = None" "st' = update_stop_loss_order ex symbol ?new ?st1"
        by (simp_all add: update_trailing_stop_def Let_def)
      have q1: "quiet st ?st1" by (rule quiet_journal) simp
      have "quiet ?st1 st'" unfolding e by (rule update_stop_loss_order_quiet(1))
      with q1 have "quiet st st'" by (rule quiet_trans)
      moreover have "TARGET_PRICES st' = TARGET_PRICES st"
        unfolding e by (simp add: update_stop_loss_order_quiet(2))
      moreover have "\<exists>q'. map_of (open_positions st') s = Some q' \<and> same_holding q q'"
        unfolding e using assms(3) by (intro update_stop_loss_order_quiet(3)) simp
      ultimately show ?thesis using e by simp
    next
      case False
      with Some tr assms have "r = None \<and> open_positions st' = open_positions st
          \<and> journal st' = journal st \<and> TARGET_PRICES st' = TARGET_PRICES st"
        by (auto simp: update_trailing_stop_def Let_def split: if_splits)
      with assms(3) show ?thesis by (auto simp: quiet_journal)
    qed
  qed
qed

lemma update_price_data_quiet:
  assumes "update_price_data symbol p ts st = (r, st')"
  shows "r = None \<and> journal st' = journal st \<and> open_positions st' = open_positions st
       \<and> TARGET_PRICES st' = TARGET_PRICES st"
  using assms
  by (auto simp: update_price_data_def update_volatility_def add_price_alert_def Let_def split: if_splits)

lemma check_price_alerts_quiet:
  "quiet st (check_price_alerts symbol p st)"
  "open_positions (check_price_alerts symbol p st) = open_positions st"
  "TARGET_PRICES (check_price_alerts symbol p st) = TARGET_PRICES st"
  by (auto simp: check_price_alerts_def quiet_def list_all_iff split: option.splits)

lemma check_partial_close_met:
  assumes "map_of (open_positions st) symbol = Some pos"
    and "pnl_percent_of pos p = Inr pnl" and "first_level pnl PARTIAL_CLOSE_LEVELS = Some l"
  shows "check_partial_close symbol p st = (Some AttributeError, st)"
  using assms by (simp add: check_partial_close_def partial_close_position_def)

lemma pnl_same_holding:
  "same_holding pos pos' \<Longrightarrow> pnl_percent_of pos' p = pnl_percent_of pos p"
  by (simp add: same_holding_def pnl_percent_of_def)

lemma on_new_price_ladder:
  assumes "map_of (open_positions st) symbol = Some pos"
    and "p \<noteq> 0 \<or> trailing_stops st symbol \<noteq> None"
    and "pnl_percent_of pos p = Inr pnl" and "first_level pnl PARTIAL_CLOSE_LEVELS = Some l"
    and "on_new_price ex symbol p ts st = (r, st')"
  shows "r = Some AttributeError \<and> quiet st st' \<and> TARGET_PRICES st' = TARGET_PRICES st
       \<and> (\<exists>pos'. map_of (open_positions st') symbol = Some pos' \<and> same_holding pos pos')
       \<and> check_partial_close symbol p st' = (Some AttributeError, st')"
proof -
  let ?st0 = "st\<lparr>previous_prices := (previous_prices st)(symbol \<mapsto> p)\<rparr>"
  obtain r1 st1 where u: "update_price_data symbol p ts ?st0 = (r1, st1)"
    by (cases "update_price_data symbol p ts ?st0")
  from update_price_data_quiet[OF u]
  have r1: "r1 = None" and j1: "journal st1 = journal st" and o1: "open_positions st1 = open_positions st"
    and g1: "TARGET_PRICES st1 = TARGET_PRICES st" by simp_all
  obtain r2 st2 where v: "update_trailing_stop ex symbol p st1 = (r2, st2)"
    by (cases "update_trailing_stop ex symbol p st1")
  have t1: "p \<noteq> 0 \<or> trailing_stops st1 symbol \<noteq> None"
    using update_price_data_trailing[OF u] assms(2) by simp
  have "map_of (open_positions st1) symbol = Some pos" using o1 assms(1) by simp
  from update_trailing_stop_quiet[OF v t1 this]
  obtain pos' where r2: "r2 = None" and q2: "quiet st1 st2" and g2: "TARGET_PRICES st2 = TARGET_PRICES st1"
    and p2: "map_of (open_positions st2) symbol = Some pos'" and h2: "same_holding pos pos'" by blast
  let ?st3 = "check_price_alerts symbol p st2"
  have p3: "map_of (open_positions ?st3) symbol = Some pos'"
    using p2 by (simp add: check_price_alerts_quiet(2))
  have pnl3: "pnl_percent_of pos' p = Inr pnl" using pnl_same_holding[OF h2] assms(3) by simp
  have c: "check_partial_close symbol p ?st3 = (Some AttributeError, ?st3)"
    using p3 pnl3 assms(4) by (rule check_partial_close_met)
  from u v r1 r2 c assms(5) have res: "r = Some AttributeError" "st' = ?st3"
    by (simp_all add: on_new_price_def)
  have "quiet st st1" using j1 by (rule quiet_journal)
  then have "quiet st st2" using q2 by (rule quiet_trans)
  then have "quiet st ?st3" using check_price_alerts_quiet(1) by (rule quiet_trans)
  moreover have "TARGET_PRICES ?st3 = TARGET_PRICES st"
    using g1 g2 by (simp add: check_price_alerts_quiet(3))
  ultimately show ?thesis using res p3 h2 c by auto
qed

text \<open>
  Claim C2, as amended.  Take a tick (an \<open>aggTrade\<close> message) whose price differs from the
  symbol's previous price and is not zero unless the symbol's trailing stop already
  exists, for a symbol with an open position, such that the threshold of a ladder level
  is met.  Then the body of the handler ends with \<open>AttributeError\<close>, raised by the
  partial-close call (run on the state reached, the ladder check returns exactly that
  error and that state); the handler logs it and returns; the only orders created
  during the tick are \<open>STOP_MARKET\<close> orders of the trailing stop, so no close order is
  placed; the position is still registered with the same quantity; and the entry logic
  after the ladder is not reached (the target prices are untouched).
\<close>

theorem ladder_raises_attribute_error:
  assumes "msg_e m = ''aggTrade''"
    and "previous_prices st (msg_s m) \<noteq> Some (msg_p m)"
    and "msg_p m \<noteq> 0 \<or> trailing_stops st (msg_s m) \<noteq> None"
    and "map_of (open_positions st) (msg_s m) = Some pos"
    and "pnl_percent_of pos (msg_p m) = Inr pnl"
    and "first_level pnl PARTIAL_CLOSE_LEVELS = Some l"
  shows "\<exists>st1 evs pos'.
           handler_body ex m st = (Some AttributeError, st1)
         \<and> check_partial_close (msg_s m) (msg_p m) st1 = (Some AttributeError, st1)
         \<and> handle_socket_message ex m st = emit [ErrorLogged In_handle_socket_message AttributeError] st1
         \<and> journal st1 = journal st @ evs \<and> list_all stop_only evs
         \<and> map_of (open_positions (handle_socket_message ex m st)) (msg_s m) = Some pos'
         \<and> quantity pos' = quantity pos
         \<and> TARGET_PRICES (handle_socket_message ex m st) = TARGET_PRICES st"
proof -
  obtain r st1 where o: "on_new_price ex (msg_s m) (msg_p m) (msg_E m) st = (r, st1)"
    by (cases "on_new_price ex (msg_s m) (msg_p m) (msg_E m) st")
  from on_new_price_ladder[OF assms(4,3,5,6) o]
  obtain pos' where r: "r = Some AttributeError" and q: "quiet st st1"
    and g: "TARGET_PRICES st1 = TARGET_PRICES st"
    and p: "map_of (open_positions st1) (msg_s m) = Some pos'" and h: "same_holding pos pos'"
    and c: "check_partial_close (msg_s m) (msg_p m) st1 = (Some AttributeError, st1)" by blast
  from q obtain evs where j: "journal st1 = journal st @ evs" and l: "list_all stop_only evs"
    unfolding quiet_def by blast
  have b: "handler_body ex m st = (Some AttributeError, st1)"
    using o r assms(2) by (simp add: handler_body_def Let_def)
  have hs: "handle_socket_message ex m st = emit [ErrorLogged In_handle_socket_message AttributeError] st1"
    using b assms(1) by (simp add: handle_socket_message_def)
  have "map_of (open_positions (handle_socket_message ex m st)) (msg_s m) = Some pos'"
    using hs p by simp
  moreover have "quantity pos' = quantity pos" using h by (simp add: same_holding_def)
  moreover have "TARGET_PRICES (handle_socket_message ex m st) = TARGET_PRICES st"
    using hs g by simp
  ultimately show ?thesis using b c hs j l by blast
qed


theorem ladder_raises_attribute_error_witness:
  "msg_e (tick 102 1) = ''aggTrade''
   \<and> previous_prices bot_with_btc (msg_s (tick 102 1)) \<noteq> Some (msg_p (tick 102 1))
   \<and> msg_p (tick 102 1) \<noteq> 0
   \<and> map_of (open_positions bot_with_btc) (msg_s (tick 102 1)) = Some btc_long
   \<and> pnl_percent_of btc_long (msg_p (tick 102 1)) = Inr 2
   \<and> first_level 2 PARTIAL_CLOSE_LEVELS = Some \<lparr>profit = 1.0, close_percent = 0.3\<rparr>
   \<and> (\<exists>st1 evs pos'.
           handler_body exchange_up (tick 102 1) bot_with_btc = (Some AttributeError, st1)
         \<and> handle_socket_message exchange_up (tick 102 1) bot_with_btc
              = emit [ErrorLogged In_handle_socket_message AttributeError] st1
         \<and> journal st1 = journal bot_with_btc @ evs \<and> list_all stop_only evs
         \<and> map_of (open_positions (handle_socket_message exchange_up (tick 102 1) bot_with_btc))
              (msg_s (tick 102 1)) = Some pos'
         \<and> quantity pos' = quantity btc_long)"
proof -
  have h: "msg_e (tick 102 1) = ''aggTrade''"
    "previous_prices bot_with_btc (msg_s (tick 102 1)) \<noteq> Some (msg_p (tick 102 1))"
    "msg_p (tick 102 1) \<noteq> 0 \<or> trailing_stops bot_with_btc (msg_s (tick 102 1)) \<noteq> None"
    "map_of (open_positions bot_with_btc) (msg_s (tick 102 1)) = Some btc_long"
    "pnl_percent_of btc_long (msg_p (tick 102 1)) = Inr 2"
    "first_level 2 PARTIAL_CLOSE_LEVELS = Some \<lparr>profit = 1.0, close_percent = 0.3\<rparr>"
    by (simp_all add: tick_def bot_with_btc_def btc_long_def pnl_percent_of_def PARTIAL_CLOSE_LEVELS_def)
  have z: "msg_p (tick 102 1) \<noteq> 0" by (simp add: tick_def)
  from ladder_raises_attribute_error[OF h, of exchange_up] h z show ?thesis by blast
qed

text \<open>
  The claim as stated fails on a tick that repeats the previous price: the ladder is
  inside the block that runs only when the price has changed.  The position is long from
  100 and the price 102 comes twice: the threshold of the 1.0 level is met on both ticks,
  the first ends with \<open>AttributeError\<close>, the second raises nothing and goes on to the entry
  and liquidation logic, so the journal holds one logged error after both.  It fails too
  on a first tick at the price 0 for a short position from 100: the threshold is met, and
  the error is the \<open>ZeroDivisionError\<close> of the trailing stop's initialisation.
\<close>

theorem ladder_not_reached_counterexample:
  "pnl_percent_of btc_long 102 = Inr 2
   \<and> first_level 2 PARTIAL_CLOSE_LEVELS = Some \<lparr>profit = 1.0, close_percent = 0.3\<rparr>
   \<and> fst (handler_body exchange_down (tick 102 1) bot_with_btc) = Some AttributeError
   \<and> map_of (open_positions (handle_socket_message exchange_down (tick 102 1) bot_with_btc)) ''BTCUSDT''
        = Some btc_long
   \<and> previous_prices (handle_socket_message exchange_down (tick 102 1) bot_with_btc) ''BTCUSDT'' = Some 102
   \<and> fst (handler_body exchange_down (tick 102 2)
             (handle_socket_message exchange_down (tick 102 1) bot_with_btc)) = None
   \<and> journal (run [(exchange_down, tick 102 1), (exchange_down, tick 102 2)] bot_with_btc)
        = [ErrorLogged In_handle_socket_message AttributeError]
   \<and> pnl_percent_of btc_short 0 = Inr 100
   \<and> first_level 100 PARTIAL_CLOSE_LEVELS = Some \<lparr>profit = 1.0, close_percent = 0.3\<rparr>
   \<and> fst (handler_body exchange_down (tick 0 1) bot_with_short) = Some ZeroDivisionError
   \<and> journal (handle_socket_message exchange_down (tick 0 1) bot_with_short)
        = [ErrorLogged In_handle_socket_message ZeroDivisionError]"
  by (simp add: handler_defs exchange_down_def btc_long_def bot_with_btc_def btc_short_def
        bot_with_short_def tick_def Let_def)

text \<open>
  Claim C1 (what the code does at the scenario of the specification).  A long position
  of 10 units entered at 100; the price goes to 101 and then to 103, on an exchange that
  accepts every call.  On both ticks the first level whose threshold is met is the 1.0
  level, so the same level is selected twice; and no part is ever closed: after both
  ticks the tracked quantity is still 10, and the journal holds, besides the replacement
  of the stop order by the trailing stop, only the two logged \<open>AttributeError\<close>s.
\<close>

theorem ladder_level_met_on_every_tick:
  "pnl_percent_of btc_long 101 = Inr 1
   \<and> first_level 1 PARTIAL_CLOSE_LEVELS = Some \<lparr>profit = 1.0, close_percent = 0.3\<rparr>
   \<and> pnl_percent_of btc_long 103 = Inr 3
   \<and> first_level 3 PARTIAL_CLOSE_LEVELS = Some \<lparr>profit = 1.0, close_percent = 0.3\<rparr>
   \<and> map_option quantity
        (map_of (open_positions (run [(exchange_up, tick 101 1), (exchange_up, tick 103 2)] bot_with_btc))
           ''BTCUSDT'') = Some (PyNum 10)
   \<and> journal (run [(exchange_up, tick 101 1), (exchange_up, tick 103 2)] bot_with_btc)
       = [ErrorLogged In_handle_socket_message AttributeError,
          Called (Futures_get_open_orders ''BTCUSDT'') True,
          Called (Futures_create_order
                   \<lparr>order_symbol = ''BTCUSDT'', order_side = ''SELL'', order_type = ''STOP_MARKET'',
                    stopPrice = Some (10094 / 101), order_quantity = PyNum 10\<rparr>) True,
          ErrorLogged In_handle_socket_message AttributeError]"
  by (simp add: handler_defs exchange_up_def btc_long_def bot_with_btc_def tick_def Let_def)


section \<open>Opening a position: what is registered\<close>

lemma grows_refl [simp]: "grows st st" "added st st = []"
  by (simp_all add: grows_def added_def)

lemma grows_emit [simp]: "grows st (emit evs st)" "added st (emit evs st) = evs"
  by (simp_all add: grows_def added_def)

lemma grows_by: "journal b = journal a @ evs \<Longrightarrow> grows a b \<and> added a b = evs"
  by (simp add: grows_def added_def)

lemma grows_trans:
  assumes "grows a b" and "grows b c"
  shows "grows a c" and "added a c = added a b @ added b c"
proof -
  define x where "x = added a b"
  define y where "y = added b c"
  from assms have "journal c = journal a @ (x @ y)"
    by (simp add: grows_def x_def y_def)
  from grows_by[OF this] show "grows a c" and "added a c = x @ y" by simp_all
qed

lemma grows_same: "journal b = journal a \<Longrightarrow> grows a b \<and> added a b = []"
  by (simp add: grows_def added_def)

lemma order_events_simps [simp]:
  "order_events [] = []"
  "order_events (ev # evs) = order_event ev @ order_events evs"
  "order_events (xs @ ys) = order_events xs @ order_events ys"
  by (simp_all add: order_events_def)

lemma check_margin_usage_added:
  "check_margin_usage ex st = (r, st') \<Longrightarrow> grows st st' \<and> order_events (added st st') = []"
  by (auto simp: check_margin_usage_def split: sum.splits if_splits)

lemma set_leverage_added:
  "grows st (set_leverage ex symbol st) \<and> order_events (added st (set_leverage ex symbol st)) = []"
  by (simp add: set_leverage_def)

lemma grows_emit2: "grows st (emit evs2 (emit evs1 st))" "added st (emit evs2 (emit evs1 st)) = evs1 @ evs2"
  by (simp_all add: grows_def added_def emit_def)

lemma check_entry_conditions_added:
  "check_entry_conditions ex symbol p st = (r, st') \<Longrightarrow> grows st st' \<and> order_events (added st st') = []"
  by (auto simp: check_entry_conditions_def Let_def grows_def added_def emit_def split: sum.splits if_splits)


lemma entry_outcomeI:
  assumes "order_type entry = ''MARKET''" and "order_symbol entry = symbol"
    and "order_type slo = ''STOP_MARKET''" and "order_type tpo = ''TAKE_PROFIT_MARKET''"
    and "(os = [] \<and> \<not> registered) \<or>
         (os = [(entry, False)] \<and> \<not> registered) \<or>
         (os = [(entry, True)] \<and> \<not> registered) \<or>
         (os = [(entry, True), (slo, False)] \<and> \<not> registered) \<or>
         (os = [(entry, True), (slo, True), (tpo, False)] \<and> \<not> registered) \<or>
         (os = [(entry, True), (slo, True), (tpo, True)] \<and> registered)"
  shows "entry_outcome symbol os registered"
  unfolding entry_outcome_def using assms by blast

lemma entry_outcome_none: "entry_outcome symbol [] False"
  by (rule entry_outcomeI[of
        "\<lparr>order_symbol = symbol, order_side = [], order_type = ''MARKET'', stopPrice = None, order_quantity = PyNum 0\<rparr>"
        _ "\<lparr>order_symbol = symbol, order_side = [], order_type = ''STOP_MARKET'', stopPrice = None, order_quantity = PyNum 0\<rparr>"
        "\<lparr>order_symbol = symbol, order_side = [], order_type = ''TAKE_PROFIT_MARKET'', stopPrice = None, order_quantity = PyNum 0\<rparr>"])
     simp_all

lemma place_orders_added:
  assumes "place_orders ex symbol sd cp sl tp q st = (r, st')"
  shows "grows st st' \<and>
         (\<exists>registered. entry_outcome symbol (order_events (added st st')) registered
            \<and> (registered \<longleftrightarrow> r = None)
            \<and> (\<not> registered \<longrightarrow> open_positions st' = open_positions st))"
proof -
  let ?entry = "\<lparr>order_symbol = symbol, order_side = (if sd = ''long'' then ''BUY'' else ''SELL''),
                 order_type = ''MARKET'', stopPrice = None, order_quantity = q\<rparr>"
  let ?slo0 = "?entry\<lparr>order_type := ''STOP_MARKET''\<rparr>"
  let ?tpo0 = "?entry\<lparr>order_type := ''TAKE_PROFIT_MARKET''\<rparr>"
  show ?thesis
  proof (cases "futures_create_order ex ?entry")
    case False
    with assms have e: "r = Some ExchangeError" "st' = emit [Called (Futures_create_order ?entry) False] st"
      by (simp_all add: place_orders_def Let_def)
    have "entry_outcome symbol (order_events (added st st')) False"
      unfolding e by (rule entry_outcomeI[of ?entry _ ?slo0 ?tpo0]) simp_all
    with e show ?thesis by auto
  next
    case True
    let ?st1 = "emit [Called (Futures_create_order ?entry) True] st"
    have o1: "entry_outcome symbol (order_events (added st ?st1)) False"
      by (rule entry_outcomeI[of ?entry _ ?slo0 ?tpo0]) simp_all
    show ?thesis
    proof (cases "round_price sl (get_tick_size ex symbol)")
      case (Inl e)
      with True assms have "r = Some e" "st' = ?st1"
        by (simp_all add: place_orders_def Let_def)
      with o1 show ?thesis by auto
    next
      case (Inr slr)
      show ?thesis
      proof (cases "round_price tp (get_tick_size ex symbol)")
        case (Inl e)
        with True Inr assms have "r = Some e" "st' = ?st1"
          by (simp_all add: place_orders_def Let_def)
        with o1 show ?thesis by auto
      next
        case tpr: (Inr tpr)
        let ?side = "(if sd = ''long'' then ''SELL'' else ''BUY'')"
        let ?slo = "\<lparr>order_symbol = symbol, order_side = ?side, order_type = ''STOP_MARKET'',
                     stopPrice = Some slr, order_quantity = q\<rparr>"
        let ?tpo = "\<lparr>order_symbol = symbol, order_side = ?side, order_type = ''TAKE_PROFIT_MARKET'',
                     stopPrice = Some tpr, order_quantity = q\<rparr>"
        show ?thesis
        proof (cases "futures_create_order ex ?slo")
          case False
          with True Inr tpr assms have e: "r = Some ExchangeError"
            "st' = emit [Called (Futures_create_order ?slo) False] ?st1"
            by (simp_all add: place_orders_def Let_def)
          have j: "journal st' = journal st @ [Called (Futures_create_order ?entry) True,
                      Called (Futures_create_order ?slo) False]"
            unfolding e by (simp add: emit_def)
          note g = grows_by[OF j]
          have "entry_outcome symbol (order_events (added st st')) False"
            using g by (intro entry_outcomeI[of ?entry _ ?slo ?tpo]) simp_all
          with g e show ?thesis by auto
        next
          case slok: True
          let ?st2 = "emit [Called (Futures_create_order ?slo) True] ?st1"
          show ?thesis
          proof (cases "futures_create_order ex ?tpo")
            case False
            with True Inr tpr slok assms have e: "r = Some ExchangeError"
              "st' = emit [Called (Futures_create_order ?tpo) False] ?st2"
              by (simp_all add: place_orders_def Let_def)
            have j: "journal st' = journal st @ [Called (Futures_create_order ?entry) True,
                      Called (Futures_create_order ?slo) True, Called (Futures_create_order ?tpo) False]"
              unfolding e by (simp add: emit_def)
            note g = grows_by[OF j]
            have "entry_outcome symbol (order_events (added st st')) False"
              using g by (intro entry_outcomeI[of ?entry _ ?slo ?tpo]) simp_all
            with g e show ?thesis by auto
          next
            case tpok: True
            let ?st3 = "emit [Called (Futures_create_order ?tpo) True] ?st2"
            from True Inr tpr slok tpok assms have e: "r = None"
              "st' = ?st3\<lparr>open_positions := AList.update symbol
                       \<lparr>side = sd, quantity = q, entry_price = cp, stop_loss = slr, take_profit = tpr\<rparr>
                       (open_positions ?st3)\<rparr>"
              by (simp_all add: place_orders_def Let_def)
            have j: "journal st' = journal st @ [Called (Futures_create_order ?entry) True,
                      Called (Futures_create_order ?slo) True, Called (Futures_create_order ?tpo) True]"
              unfolding e by (simp add: emit_def)
            note g = grows_by[OF j]
            have "entry_outcome symbol (order_events (added st st')) True"
              using g by (intro entry_outcomeI[of ?entry _ ?slo ?tpo]) simp_all
            with g e show ?thesis by auto
          qed
        qed
      qed
    qed
  qed
qed


lemma enter_added:
  assumes "enter ex symbol sd p st = (r, st')"
  shows "grows st st' \<and>
         (\<exists>registered. entry_outcome symbol (order_events (added st st')) registered
            \<and> (registered \<longleftrightarrow> r = None)
            \<and> (\<not> registered \<longrightarrow> open_positions st' = open_positions st))"
proof (cases "account_for_balance ex")
  case (Inl e)
  with assms have "r = Some e" "st' = emit [Called Futures_account False] st"
    by (simp_all add: enter_def)
  then show ?thesis using entry_outcome_none[of symbol] by auto
next
  case (Inr balance)
  let ?st1 = "emit [Called Futures_account True] st"
  have g1: "grows st ?st1" "order_events (added st ?st1) = []" "open_positions ?st1 = open_positions st"
    by simp_all
  have stay: "r \<noteq> None \<Longrightarrow> st' = ?st1 \<Longrightarrow> ?thesis"
    using entry_outcome_none[of symbol] by auto
  obtain slp tpp where d: "calculate_dynamic_stops (klines_for_entry ex symbol) = (slp, tpp)"
    by (cases "calculate_dynamic_stops (klines_for_entry ex symbol)")
  show ?thesis
  proof (cases "stop_loss_price_of p slp")
    case (Inl e)
    with Inr d assms have "r = Some e" "st' = ?st1" by (simp_all add: enter_def Let_def)
    then show ?thesis by (intro stay) simp_all
  next
    case sl: (Inr sl)
    show ?thesis
    proof (cases "take_profit_price_of p tpp")
      case (Inl e)
      with Inr d sl assms have "r = Some e" "st' = ?st1" by (simp_all add: enter_def Let_def)
      then show ?thesis by (intro stay) simp_all
    next
      case tp: (Inr tp)
      show ?thesis
      proof (cases "entry_quantity balance p sl")
        case (Inl e)
        with Inr d sl tp assms have "r = Some e" "st' = ?st1" by (simp_all add: enter_def Let_def)
        then show ?thesis by (intro stay) simp_all
      next
        case q: (Inr q)
        with Inr d sl tp assms have "place_orders ex symbol sd p sl tp q ?st1 = (r, st')"
          by (simp add: enter_def Let_def)
        from place_orders_added[OF this]
        obtain registered where g2: "grows ?st1 st'"
          and o: "entry_outcome symbol (order_events (added ?st1 st')) registered"
          and rr: "registered \<longleftrightarrow> r = None"
          and u: "\<not> registered \<longrightarrow> open_positions st' = open_positions ?st1" by blast
        from grows_trans[OF g1(1) g2] g1(2)
        have "grows st st'" "order_events (added st st') = order_events (added ?st1 st')" by simp_all
        with o rr u show ?thesis by auto
      qed
    qed
  qed
qed

lemma open_position_added:
  "grows st (open_position ex symbol sd p st) \<and>
   (\<exists>registered. entry_outcome symbol (order_events (added st (open_position ex symbol sd p st))) registered
      \<and> (\<not> registered \<longrightarrow> open_positions (open_position ex symbol sd p st) = open_positions st)
      \<and> (registered \<or> order_events (added st (open_position ex symbol sd p st)) = [] \<or>
          (\<exists>e evs. added st (open_position ex symbol sd p st) = evs @ [ErrorLogged In_open_position e])))"
proof -
  obtain margin_ok st1 where m: "check_margin_usage ex st = (margin_ok, st1)"
    by (cases "check_margin_usage ex st")
  from check_margin_usage_added[OF m] check_margin_usage_frame[OF m]
  have g1: "grows st st1" "order_events (added st st1) = []" "open_positions st1 = open_positions st"
    by simp_all
  show ?thesis
  proof (cases margin_ok)
    case False
    let ?st' = "emit [WarningLogged ''margin usage too high''] st1"
    from False m have e: "open_position ex symbol sd p st = ?st'"
      by (simp add: open_position_def)
    have "grows st1 ?st'" "added st1 ?st' = [WarningLogged ''margin usage too high'']" by simp_all
    from grows_trans[OF g1(1) this(1)] this(2) g1 e entry_outcome_none[of symbol]
    show ?thesis by auto
  next
    case True
    let ?st2 = "set_leverage ex symbol st1"
    from set_leverage_added[of st1 ex symbol] grows_trans[OF g1(1), of ?st2] g1
    have g2: "grows st ?st2" "order_events (added st ?st2) = []" "open_positions ?st2 = open_positions st"
      by simp_all
    obtain conditions_ok st3 where c: "check_entry_conditions ex symbol p ?st2 = (conditions_ok, st3)"
      by (cases "check_entry_conditions ex symbol p ?st2")
    from check_entry_conditions_added[OF c] check_entry_conditions_frame[OF c] grows_trans[OF g2(1), of st3] g2
    have g3: "grows st st3" "order_events (added st st3) = []" "open_positions st3 = open_positions st"
      by simp_all
    show ?thesis
    proof (cases conditions_ok)
      case False
      with True m c have "open_position ex symbol sd p st = st3"
        by (simp add: open_position_def Let_def)
      with g3 entry_outcome_none[of symbol] show ?thesis by auto
    next
      case ok: True
      obtain r st4 where en: "enter ex symbol sd p st3 = (r, st4)"
        by (cases "enter ex symbol sd p st3")
      from enter_added[OF en]
      obtain registered where g4: "grows st3 st4"
        and o: "entry_outcome symbol (order_events (added st3 st4)) registered"
        and rr: "registered \<longleftrightarrow> r = None"
        and u: "\<not> registered \<longrightarrow> open_positions st4 = open_positions st3" by blast
      from grows_trans[OF g3(1) g4] g3(2)
      have g: "grows st st4" "order_events (added st st4) = order_events (added st3 st4)" by simp_all
      show ?thesis
      proof (cases r)
        case None
        with True ok m c en have "open_position ex symbol sd p st = st4"
          by (simp add: open_position_def Let_def)
        moreover from None rr have registered by simp
        ultimately show ?thesis using g o u g3(3) by auto
      next
        case (Some e)
        let ?st' = "emit [ErrorLogged In_open_position e] st4"
        from Some True ok m c en have e': "open_position ex symbol sd p st = ?st'"
          by (simp add: open_position_def Let_def)
        have "grows st4 ?st'" "added st4 ?st' = [ErrorLogged In_open_position e]" by simp_all
        from grows_trans[OF g(1) this(1)] this(2) g(2)
        have "grows st ?st'" "order_events (added st ?st') = order_events (added st3 st4)"
          "added st ?st' = added st st4 @ [ErrorLogged In_open_position e]" by simp_all
        with e' o u g3(3) show ?thesis by auto
      qed
    qed
  qed
qed

lemma entry_outcome_unprotected:
  assumes "entry_outcome symbol os registered" and "entry_filled os" and "\<not> protective_placed os"
  shows "\<not> registered \<and> os \<noteq> []"
proof -
  from assms(1) obtain entry slo tpo where t: "order_type entry = ''MARKET''"
      "order_type slo = ''STOP_MARKET''" "order_type tpo = ''TAKE_PROFIT_MARKET''"
    and c: "(os = [] \<and> \<not> registered) \<or>
         (os = [(entry, False)] \<and> \<not> registered) \<or>
         (os = [(entry, True)] \<and> \<not> registered) \<or>
         (os = [(entry, True), (slo, False)] \<and> \<not> registered) \<or>
         (os = [(entry, True), (slo, True), (tpo, False)] \<and> \<not> registered) \<or>
         (os = [(entry, True), (slo, True), (tpo, True)] \<and> registered)"
    unfolding entry_outcome_def by blast
  from c assms(2,3) t show ?thesis
    by (elim disjE) (simp_all add: entry_filled_def protective_placed_def)
qed

text \<open>
  When the exchange rejects the stop-loss or the take-profit order of a call of
  \<open>open_position\<close>, the entry order had been filled before and the two protective orders
  are not both placed.
\<close>

lemma rejected_protective_order:
  assumes "(ord, False) \<in> set (order_events (added st (open_position ex symbol sd p st)))"
    and "order_type ord = ''STOP_MARKET'' \<or> order_type ord = ''TAKE_PROFIT_MARKET''"
  shows "entry_filled (order_events (added st (open_position ex symbol sd p st)))
       \<and> \<not> protective_placed (order_events (added st (open_position ex symbol sd p st)))"
proof -
  let ?os = "order_events (added st (open_position ex symbol sd p st))"
  from open_position_added[of st ex symbol sd p]
  obtain registered where o: "entry_outcome symbol ?os registered" by blast
  from o obtain entry slo tpo where t: "order_type entry = ''MARKET''"
      "order_type slo = ''STOP_MARKET''" "order_type tpo = ''TAKE_PROFIT_MARKET''"
    and c: "(?os = [] \<and> \<not> registered) \<or>
         (?os = [(entry, False)] \<and> \<not> registered) \<or>
         (?os = [(entry, True)] \<and> \<not> registered) \<or>
         (?os = [(entry, True), (slo, False)] \<and> \<not> registered) \<or>
         (?os = [(entry, True), (slo, True), (tpo, False)] \<and> \<not> registered) \<or>
         (?os = [(entry, True), (slo, True), (tpo, True)] \<and> registered)"
    unfolding entry_outcome_def by blast
  from assms(2) t(1) have nm: "ord \<noteq> entry" by auto
  from c assms(1) nm t show ?thesis
    by (elim disjE) (auto simp: entry_filled_def protective_placed_def)
qed

text \<open>
  Claim C8, as amended.  If in a call of \<open>open_position\<close> the entry order has been filled
  and the stop-loss and the take-profit order are not both placed after it (the exchange
  rejects one of them, or the call fails before it sends them: no tick size, a price that
  cannot be rounded), then the exception is logged by the except clause of
  \<open>open_position\<close>, as the last thing the call does, and the registry of open positions is
  left exactly as it was before the call: the filled entry is not recorded.
\<close>

theorem protective_failure_not_recorded:
  assumes "entry_filled (order_events (added st (open_position ex symbol sd p st)))"
    and "\<not> protective_placed (order_events (added st (open_position ex symbol sd p st)))"
  shows "open_positions (open_position ex symbol sd p st) = open_positions st
       \<and> (\<exists>e evs. added st (open_position ex symbol sd p st) = evs @ [ErrorLogged In_open_position e])"
proof -
  let ?st' = "open_position ex symbol sd p st"
  let ?os = "order_events (added st ?st')"
  from open_position_added[of st ex symbol sd p]
  obtain registered where o: "entry_outcome symbol ?os registered"
    and u: "\<not> registered \<longrightarrow> open_positions ?st' = open_positions st"
    and l: "registered \<or> ?os = [] \<or> (\<exists>e evs. added st ?st' = evs @ [ErrorLogged In_open_position e])"
    by blast
  from entry_outcome_unprotected[OF o assms] have "\<not> registered" "?os \<noteq> []" by simp_all
  with u l show ?thesis by blast
qed


lemma flat_bars_stops: "calculate_dynamic_stops flat_bars = (NpNum (Fin 4), NpNum (Fin 6))"
  by (rule flat_eval)

lemma eth_eval:
  "open_position exchange_stop_rejected ''ETHUSDT'' ''long'' 100 bot_empty
     = bot_empty\<lparr>journal :=
         [Called Futures_account True,
          Called (Futures_change_leverage ''ETHUSDT'') True,
          Called (Futures_ticker ''ETHUSDT'') True,
          Called (Futures_order_book ''ETHUSDT'') True,
          Called Futures_account True,
          Called (Futures_create_order eth_entry) True,
          Called (Futures_create_order eth_stop) False,
          ErrorLogged In_open_position ExchangeError]\<rparr>"
  by (simp add: open_position_defs flat_bars_stops exchange_stop_rejected_def exchange_up_def bot_empty_def
        eth_entry_def eth_stop_def Let_def)

lemma eth_no_tick_size_eval:
  "open_position exchange_no_tick_size ''ETHUSDT'' ''long'' 100 bot_empty
     = bot_empty\<lparr>journal :=
         [Called Futures_account True,
          Called (Futures_change_leverage ''ETHUSDT'') True,
          Called (Futures_ticker ''ETHUSDT'') True,
          Called (Futures_order_book ''ETHUSDT'') True,
          Called Futures_account True,
          Called (Futures_create_order eth_entry) True,
          ErrorLogged In_open_position TypeError]\<rparr>"
  by (simp add: open_position_defs flat_bars_stops exchange_no_tick_size_def exchange_up_def bot_empty_def
        eth_entry_def Let_def)

text \<open>
  The exchange fills the entry order for 75 units of \<open>ETHUSDT\<close> and has no tick size for
  the symbol: rounding the stop price raises \<open>TypeError\<close> before any protective order is
  sent; the error is logged and the registry stays empty.
\<close>

theorem protective_failure_not_recorded_witness:
  "entry_filled (order_events (added bot_empty
        (open_position exchange_no_tick_size ''ETHUSDT'' ''long'' 100 bot_empty)))
   \<and> \<not> protective_placed (order_events (added bot_empty
        (open_position exchange_no_tick_size ''ETHUSDT'' ''long'' 100 bot_empty)))
   \<and> order_events (added bot_empty
        (open_position exchange_no_tick_size ''ETHUSDT'' ''long'' 100 bot_empty)) = [(eth_entry, True)]
   \<and> open_positions (open_position exchange_no_tick_size ''ETHUSDT'' ''long'' 100 bot_empty) = []
   \<and> (\<exists>e evs. added bot_empty (open_position exchange_no_tick_size ''ETHUSDT'' ''long'' 100 bot_empty)
          = evs @ [ErrorLogged In_open_position e])"
proof -
  have os: "order_events (added bot_empty
        (open_position exchange_no_tick_size ''ETHUSDT'' ''long'' 100 bot_empty)) = [(eth_entry, True)]"
    unfolding eth_no_tick_size_eval by (simp add: added_def bot_empty_def)
  have h: "entry_filled (order_events (added bot_empty
        (open_position exchange_no_tick_size ''ETHUSDT'' ''long'' 100 bot_empty)))"
     "\<not> protective_placed (order_events (added bot_empty
        (open_position exchange_no_tick_size ''ETHUSDT'' ''long'' 100 bot_empty)))"
    unfolding os by (simp_all add: entry_filled_def protective_placed_def eth_entry_def)
  from protective_failure_not_recorded[OF h] h os show ?thesis
    by (simp add: bot_empty_def)
qed

text \<open>
  The same when the exchange rejects the stop-loss order: the entry had been filled, the
  error is logged and the registry is as before.
\<close>

lemma rejected_stop_not_recorded:
  "(eth_stop, False) \<in> set (order_events (added bot_empty
        (open_position exchange_stop_rejected ''ETHUSDT'' ''long'' 100 bot_empty)))
   \<and> entry_filled (order_events (added bot_empty
        (open_position exchange_stop_rejected ''ETHUSDT'' ''long'' 100 bot_empty)))
   \<and> \<not> protective_placed (order_events (added bot_empty
        (open_position exchange_stop_rejected ''ETHUSDT'' ''long'' 100 bot_empty)))"
proof -
  have h: "(eth_stop, False) \<in> set (order_events (added bot_empty
        (open_position exchange_stop_rejected ''ETHUSDT'' ''long'' 100 bot_empty)))"
     "order_type eth_stop = ''STOP_MARKET'' \<or> order_type eth_stop = ''TAKE_PROFIT_MARKET''"
    unfolding eth_eval by (simp_all add: added_def bot_empty_def eth_stop_def)
  from rejected_protective_order[OF h] h show ?thesis by blast
qed

text \<open>
  The claim as stated fails: the exchange fills the entry order for 75 units and rejects
  the stop-loss order; the call logs the error, and the symbol is not in the registry.
\<close>

theorem filled_entry_not_recorded_counterexample:
  "open_position exchange_stop_rejected ''ETHUSDT'' ''long'' 100 bot_empty
     = bot_empty\<lparr>journal :=
         [Called Futures_account True,
          Called (Futures_change_leverage ''ETHUSDT'') True,
          Called (Futures_ticker ''ETHUSDT'') True,
          Called (Futures_order_book ''ETHUSDT'') True,
          Called Futures_account True,
          Called (Futures_create_order eth_entry) True,
          Called (Futures_create_order eth_stop) False,
          ErrorLogged In_open_position ExchangeError]\<rparr>
   \<and> order_type eth_entry = ''MARKET'' \<and> order_type eth_stop = ''STOP_MARKET''
   \<and> map_of (open_positions (open_position exchange_stop_rejected ''ETHUSDT'' ''long'' 100 bot_empty))
        ''ETHUSDT'' = None"
  unfolding eth_eval by (simp add: eth_entry_def eth_stop_def bot_empty_def)

section \<open>Entry gate\<close>

lemma calls_of_simps [simp]:
  "calls_of [] = []"
  "calls_of (ev # evs) = call_of ev @ calls_of evs"
  "calls_of (xs @ ys) = calls_of xs @ calls_of ys"
  by (simp_all add: calls_of_def)

lemma grows_emit_after:
  assumes "grows st st'"
  shows "grows st (emit evs st')" and "added st (emit evs st') = added st st' @ evs"
  using grows_trans[OF assms, of "emit evs st'"] by simp_all

lemma check_margin_usage_calls:
  assumes "check_margin_usage ex st = (b, st')"
  shows "b = margin_ok ex \<and> grows st st' \<and> calls_of (added st st') = [Futures_account]"
  using assms
  by (auto simp: check_margin_usage_def margin_ok_def split: sum.splits if_splits)

lemma set_leverage_calls:
  "grows st (set_leverage ex symbol st)"
  "calls_of (added st (set_leverage ex symbol st)) = [Futures_change_leverage symbol]"
  by (simp_all add: set_leverage_def)

lemma check_entry_conditions_calls:
  assumes "check_entry_conditions ex symbol p st = (b, st')"
  shows "b = (count_ok st \<and> volume_ok ex symbol \<and> spread_ok ex symbol) \<and> grows st st'
       \<and> calls_of (added st st') =
           (if \<not> count_ok st then []
            else if \<not> volume_ok ex symbol then [Futures_ticker symbol]
            else [Futures_ticker symbol, Futures_order_book symbol])"
proof (cases "count_ok st")
  case False
  with assms show ?thesis by (auto simp: check_entry_conditions_def count_ok_def)
next
  case c: True
  show ?thesis
  proof (cases "futures_ticker ex symbol")
    case (Inl e)
    with c assms show ?thesis
      by (auto simp: check_entry_conditions_def count_ok_def volume_ok_def)
  next
    case (Inr t)
    obtain v lp where t: "t = (v, lp)" by (cases t)
    let ?st1 = "emit [Called (Futures_ticker symbol) True] st"
    show ?thesis
    proof (cases "v * lp < MIN_VOLUME_USD")
      case True
      with c Inr t assms show ?thesis
        by (auto simp: check_entry_conditions_def count_ok_def volume_ok_def Let_def)
    next
      case vol: False
      then have vok: "volume_ok ex symbol" using Inr t by (simp add: volume_ok_def)
      show ?thesis
      proof (cases "futures_order_book ex symbol")
        case (Inl e)
        with c Inr t vol assms have "b = False"
          "st' = emit [Called (Futures_order_book symbol) False, ErrorLogged In_check_entry_conditions e] ?st1"
          by (auto simp: check_entry_conditions_def count_ok_def Let_def)
        moreover have "\<not> spread_ok ex symbol" using Inl by (simp add: spread_ok_def)
        ultimately show ?thesis using c vok grows_emit_after[of st ?st1] by simp
      next
        case bk: (Inr bk)
        obtain asks bids where bk2: "bk = (asks, bids)" by (cases bk)
        let ?st2 = "emit [Called (Futures_order_book symbol) True] ?st1"
        have g2: "grows st ?st2" "calls_of (added st ?st2) = [Futures_ticker symbol, Futures_order_book symbol]"
          using grows_emit_after[of st ?st1] by simp_all
        show ?thesis
        proof (cases "spread_percent asks bids")
          case (Inl e)
          with c Inr t vol bk bk2 assms have "b = False"
            "st' = emit [ErrorLogged In_check_entry_conditions e] ?st2"
            by (auto simp: check_entry_conditions_def count_ok_def Let_def)
          moreover have "\<not> spread_ok ex symbol" using bk bk2 Inl by (simp add: spread_ok_def)
          ultimately show ?thesis using c vok g2 grows_emit_after[OF g2(1)] by simp
        next
          case sp: (Inr sp)
          with c Inr t vol bk bk2 assms have "b = (\<not> sp > MAX_SPREAD_PERCENT)" "st' = ?st2"
            by (auto simp: check_entry_conditions_def count_ok_def Let_def split: if_splits)
          moreover have "spread_ok ex symbol = (\<not> sp > MAX_SPREAD_PERCENT)"
            using bk bk2 sp by (auto simp: spread_ok_def)
          ultimately show ?thesis using c vok g2 by simp
        qed
      qed
    qed
  qed
qed

lemma entry_guards_calls:
  assumes "entry_guards ex symbol p st = (b, st')"
  shows "b = (margin_ok ex \<and> count_ok st \<and> volume_ok ex symbol \<and> spread_ok ex symbol)
       \<and> calls_of (added st st') =
           (if \<not> margin_ok ex then [Futures_account]
            else if \<not> count_ok st then [Futures_account, Futures_change_leverage symbol]
            else if \<not> volume_ok ex symbol
                 then [Futures_account, Futures_change_leverage symbol, Futures_ticker symbol]
                 else [Futures_account, Futures_change_leverage symbol, Futures_ticker symbol,
                       Futures_order_book symbol])"
proof -
  obtain m st1 where m: "check_margin_usage ex st = (m, st1)" by (cases "check_margin_usage ex st")
  from check_margin_usage_calls[OF m]
  have m1: "m = margin_ok ex" and g1: "grows st st1" and c1: "calls_of (added st st1) = [Futures_account]"
    by simp_all
  show ?thesis
  proof (cases m)
    case False
    with m assms have "b = False" "st' = emit [WarningLogged ''margin usage too high''] st1"
      by (simp_all add: entry_guards_def)
    with False m1 c1 grows_emit_after[OF g1] show ?thesis by simp
  next
    case True
    let ?st2 = "set_leverage ex symbol st1"
    have o2: "open_positions ?st2 = open_positions st"
      using check_margin_usage_frame[OF m] by simp
    from True m assms have c: "check_entry_conditions ex symbol p ?st2 = (b, st')"
      by (simp add: entry_guards_def)
    note k = check_entry_conditions_calls[OF c]
    have g2: "grows st ?st2" "added st ?st2 = added st st1 @ added st1 ?st2"
      using grows_trans[OF g1 set_leverage_calls(1)[of st1 ex symbol]] by simp_all
    have g3: "added st st' = added st ?st2 @ added ?st2 st'"
      using grows_trans(2)[OF g2(1), of st'] k by simp
    have cnt: "count_ok ?st2 = count_ok st" using o2 by (simp add: count_ok_def)
    have "calls_of (added st st') = [Futures_account, Futures_change_leverage symbol] @ calls_of (added ?st2 st')"
      using g3 g2(2) c1 set_leverage_calls(2)[of st1 ex symbol] by simp
    with k cnt True m1 show ?thesis by simp
  qed
qed

lemma open_position_guards:
  "open_position ex symbol sd p st =
     (case entry_guards ex symbol p st of
        (True, st3) \<Rightarrow>
          (case enter ex symbol sd p st3 of
             (None, st4) \<Rightarrow> st4
           | (Some e, st4) \<Rightarrow> emit [ErrorLogged In_open_position e] st4)
      | (False, st3) \<Rightarrow> st3)"
  by (simp add: open_position_def entry_guards_def Let_def split: prod.splits)

lemma try_entry_guards:
  "try_entry ex symbol p st =
     (if \<not> target_met st symbol p then (False, st)
      else if \<not> volatility_ok st symbol
           then (True, emit [WarningLogged ''entry cancelled: high volatility''] st)
           else (False, open_position ex symbol ''long'' p st))"
  by (simp add: try_entry_def target_met_def volatility_ok_def split: option.splits)


text \<open>
  Claim C4, as amended.  \<open>check_margin_usage\<close> answers whether the margin ratio is at most
  0.8; \<open>check_entry_conditions\<close> answers whether the count, volume and spread conditions
  hold, asking the exchange for the ticker and then for the order book and stopping at
  the first condition that fails; the guards of \<open>open_position\<close> answer whether all four
  hold, and they run in the order margin (account fetch), leverage change, count,
  volume, spread, again stopping at the first failure; \<open>open_position\<close> enters exactly when
  the guards hold; and the handler, once the price has reached the target, calls
  \<open>open_position\<close> only when the volatility is unknown or not greater than 100, which it
  tests before everything else.  A failed fetch makes its condition false.
\<close>

theorem entry_gate_in_code_order:
  "fst (check_margin_usage ex st) = margin_ok ex
   \<and> fst (check_entry_conditions ex symbol p st)
        = (count_ok st \<and> volume_ok ex symbol \<and> spread_ok ex symbol)
   \<and> calls_of (added st (snd (check_entry_conditions ex symbol p st))) =
        (if \<not> count_ok st then []
         else if \<not> volume_ok ex symbol then [Futures_ticker symbol]
         else [Futures_ticker symbol, Futures_order_book symbol])
   \<and> fst (entry_guards ex symbol p st)
        = (margin_ok ex \<and> count_ok st \<and> volume_ok ex symbol \<and> spread_ok ex symbol)
   \<and> calls_of (added st (snd (entry_guards ex symbol p st))) =
        (if \<not> margin_ok ex then [Futures_account]
         else if \<not> count_ok st then [Futures_account, Futures_change_leverage symbol]
         else if \<not> volume_ok ex symbol
              then [Futures_account, Futures_change_leverage symbol, Futures_ticker symbol]
              else [Futures_account, Futures_change_leverage symbol, Futures_ticker symbol,
                    Futures_order_book symbol])
   \<and> open_position ex symbol sd p st =
        (case entry_guards ex symbol p st of
           (True, st3) \<Rightarrow>
             (case enter ex symbol sd p st3 of
                (None, st4) \<Rightarrow> st4
              | (Some e, st4) \<Rightarrow> emit [ErrorLogged In_open_position e] st4)
         | (False, st3) \<Rightarrow> st3)
   \<and> try_entry ex symbol p st =
        (if \<not> target_met st symbol p then (False, st)
         else if \<not> volatility_ok st symbol
              then (True, emit [WarningLogged ''entry cancelled: high volatility''] st)
              else (False, open_position ex symbol ''long'' p st))"
proof -
  have a: "fst (check_margin_usage ex st) = margin_ok ex"
    using check_margin_usage_calls[of ex st "fst (check_margin_usage ex st)" "snd (check_margin_usage ex st)"]
    by simp
  note b = check_entry_conditions_calls[of ex symbol p st
      "fst (check_entry_conditions ex symbol p st)" "snd (check_entry_conditions ex symbol p st)", simplified]
  note c = entry_guards_calls[of ex symbol p st
      "fst (entry_guards ex symbol p st)" "snd (entry_guards ex symbol p st)", simplified]
  from a b c open_position_guards[of ex symbol sd p st] try_entry_guards[of ex symbol p st]
  show ?thesis by presburger
qed

theorem entry_gate_in_code_order_witness:
  "margin_ok exchange_up \<and> count_ok bot_empty \<and> volume_ok exchange_up ''ETHUSDT''
   \<and> spread_ok exchange_up ''ETHUSDT''
   \<and> fst (entry_guards exchange_up ''ETHUSDT'' 100 bot_empty)
   \<and> calls_of (added bot_empty (snd (entry_guards exchange_up ''ETHUSDT'' 100 bot_empty)))
        = [Futures_account, Futures_change_leverage ''ETHUSDT'', Futures_ticker ''ETHUSDT'',
           Futures_order_book ''ETHUSDT'']"
proof -
  have h: "margin_ok exchange_up" "count_ok bot_empty" "volume_ok exchange_up ''ETHUSDT''"
     "spread_ok exchange_up ''ETHUSDT''"
    by (simp_all add: margin_ok_def count_ok_def volume_ok_def spread_ok_def spread_percent_def
          exchange_up_def bot_empty_def MAX_POSITIONS_def MIN_VOLUME_USD_def MAX_SPREAD_PERCENT_def)
  from entry_gate_in_code_order[of exchange_up bot_empty "''ETHUSDT''" 100 "''long''"] h
  show ?thesis by simp
qed

text \<open>
  The claim as stated fails on the order: with three positions open, the gate in the
  specification's order answers no without any call to the exchange, while the code has
  by then fetched the account and changed the leverage on the exchange.
\<close>

theorem entry_gate_order_counterexample:
  "can_enter_spec exchange_up ''ETHUSDT'' bot_full = (False, [])
   \<and> fst (entry_guards exchange_up ''ETHUSDT'' 100 bot_full) = False
   \<and> calls_of (added bot_full (snd (entry_guards exchange_up ''ETHUSDT'' 100 bot_full)))
        = [Futures_account, Futures_change_leverage ''ETHUSDT'']
   \<and> journal (open_position exchange_up ''ETHUSDT'' ''long'' 100 bot_full)
        = [Called Futures_account True, Called (Futures_change_leverage ''ETHUSDT'') True]"
  by (simp add: can_enter_spec_def count_ok_def entry_guards_def open_position_def
        check_margin_usage_def set_leverage_def check_entry_conditions_def
        exchange_up_def bot_full_def bot_empty_def MAX_POSITIONS_def emit_def added_def Let_def)


end
